theory Spec2Isabelle
  imports Complex_Main
begin

section \<open>Values and errors\<close>

text \<open>
  The losses are zero-dimensional float tensors. Their values are modelled as real
  numbers extended with the three special values of IEEE arithmetic, because the
  program divides and takes square roots without checking its operands: where HOL's
  \<open>x / 0\<close> is \<open>0\<close>, the tensor division yields an infinity or a NaN. Rounding is
  not modelled, and a zero is taken as the positive zero (the inner products are sums
  of non-negative kernel values).
\<close>

datatype fval = Fin real | PInf | NInf | NaN

fun is_finite :: "fval \<Rightarrow> bool" where
  "is_finite (Fin a) = True"
| "is_finite PInf = False"
| "is_finite NInf = False"
| "is_finite NaN = False"

fun fneg :: "fval \<Rightarrow> fval" where
  "fneg (Fin a) = Fin (- a)"
| "fneg PInf = NInf"
| "fneg NInf = PInf"
| "fneg NaN = NaN"

fun fadd :: "fval \<Rightarrow> fval \<Rightarrow> fval" where
  "fadd (Fin a) (Fin b) = Fin (a + b)"
| "fadd NaN y = NaN"
| "fadd x NaN = NaN"
| "fadd PInf NInf = NaN"
| "fadd NInf PInf = NaN"
| "fadd PInf y = PInf"
| "fadd NInf y = NInf"
| "fadd (Fin a) PInf = PInf"
| "fadd (Fin a) NInf = NInf"

definition fsub :: "fval \<Rightarrow> fval \<Rightarrow> fval" where
  "fsub x y = fadd x (fneg y)"

fun fmul :: "fval \<Rightarrow> fval \<Rightarrow> fval" where
  "fmul (Fin a) (Fin b) = Fin (a * b)"
| "fmul NaN y = NaN"
| "fmul x NaN = NaN"
| "fmul (Fin a) PInf = (if a = 0 then NaN else if 0 < a then PInf else NInf)"
| "fmul (Fin a) NInf = (if a = 0 then NaN else if 0 < a then NInf else PInf)"
| "fmul PInf (Fin b) = (if b = 0 then NaN else if 0 < b then PInf else NInf)"
| "fmul NInf (Fin b) = (if b = 0 then NaN else if 0 < b then NInf else PInf)"
| "fmul PInf PInf = PInf"
| "fmul PInf NInf = NInf"
| "fmul NInf PInf = NInf"
| "fmul NInf NInf = PInf"

fun fdiv :: "fval \<Rightarrow> fval \<Rightarrow> fval" where
  "fdiv (Fin a) (Fin b) =
     (if b = 0 then (if a = 0 then NaN else if 0 < a then PInf else NInf)
      else Fin (a / b))"
| "fdiv NaN y = NaN"
| "fdiv x NaN = NaN"
| "fdiv (Fin a) PInf = Fin 0"
| "fdiv (Fin a) NInf = Fin 0"
| "fdiv PInf (Fin b) = (if 0 \<le> b then PInf else NInf)"
| "fdiv NInf (Fin b) = (if 0 \<le> b then NInf else PInf)"
| "fdiv PInf y = NaN"
| "fdiv NInf y = NaN"

fun fsqrt :: "fval \<Rightarrow> fval" where
  "fsqrt (Fin a) = (if a < 0 then NaN else Fin (sqrt a))"
| "fsqrt PInf = PInf"
| "fsqrt NInf = NaN"
| "fsqrt NaN = NaN"

text \<open>The exceptions the modelled code can raise.\<close>

datatype error =
    KeyError
  | IndexError
  | RuntimeError
  | AssertionError string

text \<open>
  A frame identifier is a temporal offset relative to the host frame, or the string
  \<open>"s"\<close> of the stereo counterpart.
\<close>

datatype frame_id = Frame int | Stereo

section \<open>CVO losses from inner products\<close>

text \<open>
  \<open>Trainer.loss_from_inner_prod\<close>: the dictionary \<open>inner_prods\<close> is keyed by the
  pairs \<open>(0,0)\<close>, \<open>(1,1)\<close> and \<open>(0,1)\<close>; a missing key raises.
\<close>

definition loss_from_inner_prod :: "(int \<times> int \<rightharpoonup> fval) \<Rightarrow> error + (fval \<times> fval)" where
  "loss_from_inner_prod inner_prods =
     (case inner_prods (0, 0) of None \<Rightarrow> Inl KeyError | Some p00 \<Rightarrow>
     (case inner_prods (1, 1) of None \<Rightarrow> Inl KeyError | Some p11 \<Rightarrow>
     (case inner_prods (0, 1) of None \<Rightarrow> Inl KeyError | Some p01 \<Rightarrow>
        (let f1_f2_dist = fsub (fadd p00 p11) (fmul (Fin 2) p01);
             cos_similarity = fsub (Fin 1) (fdiv p01 (fsqrt (fmul p00 p11)))
         in Inr (f1_f2_dist, cos_similarity)))))"

text \<open>
  \<open>Trainer.gen_cvo_loss_dense\<close>: \<open>innerps\<close> is keyed by (frame pair, scale,
  ground-truth pair). The entry of the requested pair is read first; only a pair of
  two different frames reads the two self inner products.
\<close>

type_synonym innerp_key = "(frame_id \<times> frame_id) \<times> nat \<times> (bool \<times> bool)"

definition gen_cvo_loss_dense ::
  "(innerp_key \<rightharpoonup> fval) \<Rightarrow> frame_id \<times> frame_id \<Rightarrow> nat \<Rightarrow> bool \<times> bool
     \<Rightarrow> error + (fval \<times> fval \<times> fval)" where
  "gen_cvo_loss_dense innerps id_pair scale gt_pair =
     (case id_pair of (i, j) \<Rightarrow>
     (case gt_pair of (gt_i, gt_j) \<Rightarrow>
     (case innerps (id_pair, scale, gt_pair) of None \<Rightarrow> Inl KeyError | Some inp \<Rightarrow>
        if i = j then Inr (inp, Fin 0, Fin 0)
        else
          (case innerps ((i, i), scale, (gt_i, gt_i)) of None \<Rightarrow> Inl KeyError | Some inp_ii \<Rightarrow>
          (case innerps ((j, j), scale, (gt_j, gt_j)) of None \<Rightarrow> Inl KeyError | Some inp_jj \<Rightarrow>
             (let f_dist = fsub (fadd inp_ii inp_jj) (fmul (Fin 2) inp);
                  cos_sim = fsub (Fin 1) (fdiv inp (fsqrt (fmul inp_ii inp_jj)))
              in Inr (inp, f_dist, cos_sim)))))))"

section \<open>Sub-sampling of point sets in sparse CVO mode\<close>

text \<open>
  A per-sample point set is a tensor of shape \<open>1 \<times> C \<times> N\<close>; it is modelled as the
  list of its \<open>N\<close> columns, each column the list of the \<open>C\<close> channel values of one
  point, so that \<open>shape[-1]\<close> is the length of the list. The permutation drawn by
  \<open>torch.randperm\<close> is an argument of the model.
\<close>

type_synonym points = "real list list"

text \<open>Indexing the last dimension with an index tensor, \<open>x[..., idx]\<close>.\<close>

definition index_select :: "points \<Rightarrow> nat list \<Rightarrow> error + points" where
  "index_select x idx =
     (if list_all (\<lambda>k. k < length x) idx then Inr (map (\<lambda>k. x ! k) idx) else Inl IndexError)"

text \<open>The row slice \<open>x[:, 0:3, :]\<close>.\<close>

definition rows_0_3 :: "points \<Rightarrow> points" where
  "rows_0_3 x = map (take 3) x"

text \<open>
  \<open>Trainer.compute_losses\<close>, the selection of one point set (the code has the same
  lines for set 0 and for set 1), with the local constant \<open>samp_pt\<close>.
\<close>

definition samp_pt :: nat where
  "samp_pt = 3500"

definition select_pts ::
  "nat \<Rightarrow> (nat \<Rightarrow> nat list) \<Rightarrow> points \<Rightarrow> points \<Rightarrow> error + (points \<times> points)" where
  "select_pts cap randperm xyz rgb =
     (if length xyz > cap then
        (let num_from = length xyz;
             idx = take cap (randperm num_from)
         in (case index_select xyz idx of Inl e \<Rightarrow> Inl e | Inr xyz_sel \<Rightarrow>
            (case index_select rgb idx of Inl e \<Rightarrow> Inl e | Inr rgb_sel \<Rightarrow>
               Inr (rows_0_3 xyz_sel, rgb_sel))))
      else Inr (rows_0_3 xyz, rgb))"

definition compute_losses_select ::
  "(nat \<Rightarrow> nat list) \<Rightarrow> points \<Rightarrow> points \<Rightarrow> error + (points \<times> points)" where
  "compute_losses_select = select_pts samp_pt"

text \<open>
  \<open>Trainer.calc_cvo_pose_loss\<close>, one pass of the loop over \<open>k\<close>, with the local constant
  \<open>samp_num\<close>. The position vector has been cut to its first three rows before.
\<close>

definition samp_num :: nat where
  "samp_num = 5000"

definition subsample_pts ::
  "nat \<Rightarrow> (nat \<Rightarrow> nat list) \<Rightarrow> points \<Rightarrow> points \<Rightarrow> error + (points \<times> points)" where
  "subsample_pts cap randperm xyz rgb =
     (let num_el = length xyz in
      if num_el > cap then
        (let perm = randperm num_el;
             idx = take cap perm
         in (case index_select xyz idx of Inl e \<Rightarrow> Inl e | Inr xyz_sel \<Rightarrow>
            (case index_select rgb idx of Inl e \<Rightarrow> Inl e | Inr rgb_sel \<Rightarrow>
               Inr (xyz_sel, rgb_sel))))
      else Inr (xyz, rgb))"

definition calc_cvo_pose_loss_select ::
  "(nat \<Rightarrow> nat list) \<Rightarrow> points \<Rightarrow> points \<Rightarrow> error + (points \<times> points)" where
  "calc_cvo_pose_loss_select = subsample_pts samp_num"

text \<open>What \<open>torch.randperm n\<close> returns: the numbers below \<open>n\<close>, each once, in some order.\<close>

definition is_permutation :: "nat \<Rightarrow> nat list \<Rightarrow> bool" where
  "is_permutation n perm = (distinct perm \<and> set perm = {0..<n})"

section \<open>Options\<close>

text \<open>The fields of the options object that the modelled code reads.\<close>

record options =
  height :: int
  width :: int
  frame_ids :: "frame_id list"
  use_stereo :: bool
  pose_model_type :: string
  predictive_mask :: bool
  disable_automasking :: bool
  avg_reprojection :: bool
  no_ssim :: bool

text \<open>A configuration with the usual resolution and frames, for the examples.\<close>

definition opts0 :: options where
  "opts0 = \<lparr>height = 192, width = 640, frame_ids = [Frame 0, Frame (- 1), Frame 1],
     use_stereo = False, pose_model_type = ''separate_resnet'', predictive_mask = False,
     disable_automasking = False, avg_reprojection = False, no_ssim = False\<rparr>"

section \<open>Photometric reprojection loss and the selection of the minimum\<close>

text \<open>
  Images and losses are tensors of shape \<open>B \<times> C \<times> H \<times> W\<close>. A tensor is modelled as
  the function from a pixel \<open>(b, h, w)\<close> to the list of its channel values there. The
  operands of an element-wise operation have equal shapes in the code.
\<close>

type_synonym pixel = "nat \<times> nat \<times> nat"
type_synonym tensor = "pixel \<Rightarrow> real list"

text \<open>\<open>x.mean(1, True)\<close>: the mean over the channels, kept as one channel.\<close>

definition mean_ch :: "real list \<Rightarrow> real" where
  "mean_ch xs = sum_list xs / real (length xs)"

definition mean1 :: "tensor \<Rightarrow> tensor" where
  "mean1 x = (\<lambda>p. [mean_ch (x p)])"

text \<open>
  \<open>Trainer.compute_reprojection_loss\<close>. The structural-similarity module
  \<open>self.ssim\<close> is defined outside the modelled files and is an argument.
\<close>

definition compute_reprojection_loss ::
  "options \<Rightarrow> (tensor \<Rightarrow> tensor \<Rightarrow> tensor) \<Rightarrow> tensor \<Rightarrow> tensor \<Rightarrow> tensor" where
  "compute_reprojection_loss opt ssim pred target =
     (let abs_diff = (\<lambda>p. map2 (\<lambda>t q. \<bar>t - q\<bar>) (target p) (pred p));
          l1_loss = mean1 abs_diff
      in if no_ssim opt then l1_loss
         else
           (let ssim_loss = mean1 (ssim pred target)
            in (\<lambda>p. map2 (+) (map ((*) 0.85) (ssim_loss p)) (map ((*) 0.15) (l1_loss p)))))"

text \<open>
  \<open>Trainer.compute_losses\<close>, from the concatenation of the per-frame reprojection
  losses to \<open>to_optimise\<close>, at one pixel. \<open>reprojection_losses\<close> and
  \<open>identity_reprojection_losses\<close> hold one value for each frame of
  \<open>frame_ids[1:]\<close>; \<open>torch.cat\<close> of an empty list raises. \<open>mask\<close> holds the values
  of the predictive mask and \<open>randn\<close> the normal samples drawn for the channels of
  the identity loss.
\<close>

text \<open>
  The last step: a single channel is taken as it is, several channels are reduced by
  \<open>torch.min\<close> over the channel dimension.
\<close>

definition min_over_channels :: "real list \<Rightarrow> real" where
  "min_over_channels combined =
     (if length combined = 1 then hd combined else min_list combined)"

definition to_optimise_at ::
  "options \<Rightarrow> real list \<Rightarrow> real list \<Rightarrow> real list \<Rightarrow> (nat \<Rightarrow> real) \<Rightarrow> error + real" where
  "to_optimise_at opt reprojection_losses identity_reprojection_losses mask_vals randn =
     (if reprojection_losses = [] then Inl RuntimeError
      else
        (let identity_reprojection_loss =
               (if avg_reprojection opt then [mean_ch identity_reprojection_losses]
                else identity_reprojection_losses);
             reprojection_losses' =
               (if disable_automasking opt \<and> predictive_mask opt
                then map2 (*) reprojection_losses mask_vals else reprojection_losses);
             reprojection_loss =
               (if avg_reprojection opt then [mean_ch reprojection_losses']
                else reprojection_losses');
             combined =
               (if \<not> disable_automasking opt
                then map (\<lambda>k. identity_reprojection_loss ! k + randn k * 0.00001)
                       [0..<length identity_reprojection_loss] @ reprojection_loss
                else reprojection_loss)
         in Inr (min_over_channels combined)))"

definition no_noise :: "nat \<Rightarrow> real" where
  "no_noise k = 0"

section \<open>Checks of the trainer's constructor\<close>

text \<open>
  \<open>Trainer.__init__\<close> up to the construction of the optimiser: the assertions, the
  indexing of \<open>frame_ids\<close>, and the lookup \<open>self.models["pose"]\<close>, which raises
  when a pose network is used and \<open>pose_model_type\<close> is none of the three names the
  constructor knows. The constructors of the networks are outside the modelled files.
\<close>

definition Trainer_init :: "options \<Rightarrow> error + unit" where
  "Trainer_init opt =
     (if height opt mod 32 \<noteq> 0 then Inl (AssertionError ''height must be a multiple of 32'')
      else if width opt mod 32 \<noteq> 0 then Inl (AssertionError ''width must be a multiple of 32'')
      else
        (case frame_ids opt of
           [] \<Rightarrow> Inl IndexError
         | f # fs \<Rightarrow>
             if f \<noteq> Frame 0 then Inl (AssertionError ''frame_ids must start with 0'')
             else
               (let use_pose_net = \<not> (use_stereo opt \<and> frame_ids opt = [Frame 0])
                in if use_pose_net
                      \<and> pose_model_type opt \<notin> set [''separate_resnet'', ''shared'', ''posecnn'']
                   then Inl KeyError
                   else if predictive_mask opt \<and> \<not> disable_automasking opt
                   then Inl (AssertionError ''When using predictive_mask, please disable automasking'')
                   else Inr ())))"

definition known_pose_model :: "options \<Rightarrow> bool" where
  "known_pose_model opt =
     (pose_model_type opt \<in> set [''separate_resnet'', ''shared'', ''posecnn''])"

fun is_assertion :: "error + unit \<Rightarrow> bool" where
  "is_assertion (Inl (AssertionError m)) = True"
| "is_assertion r = False"

section \<open>Per-scale camera intrinsics\<close>

text \<open>
  \<open>KITTIRAWDataset.get_depth_related\<close> and \<open>KITTIDepthDataset.get_depth_related\<close>
  have the same loop over the scales; \<open>ds_width\<close> and \<open>ds_height\<close> are the
  data set's \<open>self.width\<close> and \<open>self.height\<close>. A matrix is the list of its rows. \<open>K_\<close> is the
  normalised matrix returned by \<open>get_depth\<close>; \<open>np.linalg.pinv\<close> is an argument.
\<close>

type_synonym matrix = "real list list"

text \<open>The in-place update \<open>K[r, :] *= c\<close>; a row that does not exist raises.\<close>

definition scale_row :: "nat \<Rightarrow> real \<Rightarrow> matrix \<Rightarrow> error + matrix" where
  "scale_row r c K =
     (if r < length K then Inr (K[r := map (\<lambda>x. x * c) (K ! r)]) else Inl IndexError)"

type_synonym intrinsics = "string \<times> nat \<rightharpoonup> matrix"

fun load_intrinsics ::
  "(matrix \<Rightarrow> matrix) \<Rightarrow> int \<Rightarrow> int \<Rightarrow> matrix \<Rightarrow> nat list \<Rightarrow> intrinsics \<Rightarrow> error + intrinsics" where
  "load_intrinsics pinv ds_width ds_height K_base [] inputs = Inr inputs"
| "load_intrinsics pinv ds_width ds_height K_base (scale # scales) inputs =
     (case scale_row 0 (real_of_int (ds_width div 2 ^ scale)) K_base of Inl e \<Rightarrow> Inl e | Inr K0 \<Rightarrow>
     (case scale_row 1 (real_of_int (ds_height div 2 ^ scale)) K0 of Inl e \<Rightarrow> Inl e | Inr K \<Rightarrow>
        (let inv_K = pinv K
         in load_intrinsics pinv ds_width ds_height K_base scales
              (inputs((''K'', scale) \<mapsto> K, (''inv_K'', scale) \<mapsto> inv_K)))))"

definition get_depth_related_K ::
  "(matrix \<Rightarrow> matrix) \<Rightarrow> int \<Rightarrow> int \<Rightarrow> nat \<Rightarrow> matrix \<Rightarrow> intrinsics \<Rightarrow> error + intrinsics" where
  "get_depth_related_K pinv ds_width ds_height num_scales K_base inputs =
     load_intrinsics pinv ds_width ds_height K_base [0..<num_scales] inputs"

text \<open>The matrix the claim describes for a scale, and the four Penrose equations.\<close>

definition scaled_K :: "int \<Rightarrow> int \<Rightarrow> nat \<Rightarrow> matrix \<Rightarrow> matrix" where
  "scaled_K ds_width ds_height scale K_base =
     map (\<lambda>x. x * real_of_int (ds_width div 2 ^ scale)) (K_base ! 0)
     # map (\<lambda>x. x * real_of_int (ds_height div 2 ^ scale)) (K_base ! 1)
     # drop 2 K_base"

definition mat_mul :: "matrix \<Rightarrow> matrix \<Rightarrow> matrix" where
  "mat_mul A B = map (\<lambda>row. map (\<lambda>col. sum_list (map2 (*) row col)) (transpose B)) A"

definition moore_penrose :: "matrix \<Rightarrow> matrix \<Rightarrow> bool" where
  "moore_penrose A X =
     (mat_mul (mat_mul A X) A = A \<and> mat_mul (mat_mul X A) X = X
      \<and> transpose (mat_mul A X) = mat_mul A X \<and> transpose (mat_mul X A) = mat_mul X A)"

section \<open>Depth validity mask\<close>

text \<open>
  An image of \<open>new_h\<close> rows and \<open>new_w\<close> columns is a function of the row and the
  column. \<open>skimage.morphology.binary_closing\<close> is the library's dilation followed by
  its erosion with the same structuring element; the dilation takes the outside of the
  image as clear, the erosion takes it as set. The structuring element is given by the
  offsets of its cells from its origin.
\<close>

type_synonym footprint = "(int \<times> int) list"

definition inside :: "int \<Rightarrow> int \<Rightarrow> int \<Rightarrow> int \<Rightarrow> bool" where
  "inside h w r c = (0 \<le> r \<and> r < h \<and> 0 \<le> c \<and> c < w)"

definition binary_dilation :: "int \<Rightarrow> int \<Rightarrow> footprint \<Rightarrow> (int \<Rightarrow> int \<Rightarrow> bool) \<Rightarrow> int \<Rightarrow> int \<Rightarrow> bool" where
  "binary_dilation h w selem img r c =
     list_ex (\<lambda>(dr, dc). inside h w (r - dr) (c - dc) \<and> img (r - dr) (c - dc)) selem"

definition binary_erosion :: "int \<Rightarrow> int \<Rightarrow> footprint \<Rightarrow> (int \<Rightarrow> int \<Rightarrow> bool) \<Rightarrow> int \<Rightarrow> int \<Rightarrow> bool" where
  "binary_erosion h w selem img r c =
     list_all (\<lambda>(dr, dc). \<not> inside h w (r + dr) (c + dc) \<or> img (r + dr) (c + dc)) selem"

definition binary_closing :: "int \<Rightarrow> int \<Rightarrow> footprint \<Rightarrow> (int \<Rightarrow> int \<Rightarrow> bool) \<Rightarrow> int \<Rightarrow> int \<Rightarrow> bool" where
  "binary_closing h w selem img =
     binary_erosion h w selem (binary_dilation h w selem img)"

text \<open>
  \<open>get_depth_related\<close>, the mask of one frame at scale \<open>j\<close>: the copy of the depth
  map with the rows from \<open>int(new_h/2)\<close> on set to 1, closed with
  \<open>self.dilate_struct[j]\<close> (an attribute set outside the modelled files). The sizes
  are not negative, so \<open>int(new_h/2)\<close> is \<open>new_h div 2\<close>.
\<close>

definition depth_mask ::
  "(nat \<Rightarrow> footprint) \<Rightarrow> int \<Rightarrow> int \<Rightarrow> nat \<Rightarrow> (int \<Rightarrow> int \<Rightarrow> real) \<Rightarrow> int \<Rightarrow> int \<Rightarrow> bool" where
  "depth_mask dilate_struct ds_height ds_width j depth_gt =
     (let new_w = ds_width div 2 ^ j;
          new_h = ds_height div 2 ^ j;
          mask_vals = (\<lambda>r c. if new_h div 2 \<le> r then 1 else depth_gt r c)
      in binary_closing new_h new_w (dilate_struct j) (\<lambda>r c. mask_vals r c \<noteq> 0))"

section \<open>Inner product of two dense point sets\<close>

text \<open>
  \<open>Trainer.calc_inp_from_dense\<close>. A tensor of shape \<open>B \<times> C \<times> H \<times> W\<close> is the
  function from the batch index, the row and the column to the value there (the list
  of the \<open>C\<close> channel values, or the truth value of a mask). Both point sets have the
  same \<open>H\<close> and \<open>W\<close>, here \<open>hgt\<close> and \<open>wid\<close>. The neighbour values are gathered
  in tensors with one more dimension of \<open>num_off\<close> slots, modelled as functions from
  the slot index.

  The kernel values \<open>diff\<close> have the shape \<open>B \<times> num_off \<times> H \<times> W\<close> (the norm removes
  the channel dimension), while the masks keep their channel dimension of size 1:
  \<open>mask_pair_off\<close> has the shape \<open>B \<times> 1 \<times> num_off \<times> H \<times> W\<close> and \<open>mask_pair[0]\<close>
  the shape \<open>B \<times> 1 \<times> H \<times> W\<close>. Both calls of \<open>torch.where\<close> therefore broadcast
  the batch dimension of the mask against the batch dimension of the values: the result
  has an entry for every pair of a mask sample \<open>a\<close> and a value sample \<open>b\<close>, and
  the final sum runs over all these pairs.
\<close>

type_synonym 'a dense = "nat \<Rightarrow> int \<Rightarrow> int \<Rightarrow> 'a"

text \<open>
  The bounds of the Python slice \<open>start:stop\<close> in a dimension of size \<open>n\<close>: a negative
  bound counts from the end, and both are clipped to the dimension.
\<close>

definition slice_bounds :: "int \<Rightarrow> int \<Rightarrow> int \<Rightarrow> int \<times> int" where
  "slice_bounds n start stop =
     (let lo = (if start < 0 then max 0 (start + n) else min start n);
          hi = (if stop < 0 then max 0 (stop + n) else min stop n)
      in (lo, max lo hi))"

text \<open>
  The assignment \<open>dest[:, :, idx, a:b, c:d] = src[:, :, a':b', c':d']\<close> for one slot.
  The source window must have the size of the destination window, or size 1 (it is
  then broadcast); otherwise the assignment raises.
\<close>

definition assign_window ::
  "int \<times> int \<Rightarrow> int \<times> int \<Rightarrow> int \<times> int \<Rightarrow> int \<times> int \<Rightarrow> 'a dense \<Rightarrow> 'a dense \<Rightarrow> error + 'a dense" where
  "assign_window dest_h dest_w src_h src_w dest src =
     (let len_dh = snd dest_h - fst dest_h; len_dw = snd dest_w - fst dest_w;
          len_sh = snd src_h - fst src_h; len_sw = snd src_w - fst src_w
      in if (len_sh = len_dh \<or> len_sh = 1) \<and> (len_sw = len_dw \<or> len_sw = 1) then
           Inr (\<lambda>b h w.
                  if fst dest_h \<le> h \<and> h < snd dest_h \<and> fst dest_w \<le> w \<and> w < snd dest_w
                  then src b (fst src_h + (if len_sh = len_dh then h - fst dest_h else 0))
                             (fst src_w + (if len_sw = len_dw then w - fst dest_w else 0))
                  else dest b h w)
         else Inl RuntimeError)"

record offsets =
  xyz_pair_off :: "nat \<Rightarrow> real list dense"
  mask_pair_off :: "nat \<Rightarrow> bool dense"
  hsv_pair_off :: "nat \<Rightarrow> real list dense"

definition half_w :: int where
  "half_w = 4"

definition half_h :: int where
  "half_h = 4"

definition num_off :: nat where
  "num_off = nat ((2 * half_w + 1) * (2 * half_h + 1))"

text \<open>The body of the two nested loops, for the offsets \<open>i\<close> and \<open>j\<close>.\<close>

definition fill_offset ::
  "int \<Rightarrow> int \<Rightarrow> real list dense \<Rightarrow> bool dense \<Rightarrow> real list dense option
     \<Rightarrow> int \<times> int \<Rightarrow> offsets \<Rightarrow> error + offsets" where
  "fill_offset hgt wid xyz1 mask1 hsv1 ij st =
     (case ij of (i, j) \<Rightarrow>
     (let off_h0_start = max 0 (- i); off_h0_end = min 0 (- i);
          off_w0_start = max 0 (- j); off_w0_end = min 0 (- j);
          off_h1_start = - off_h0_end; off_h1_end = - off_h0_start;
          off_w1_start = - off_w0_end; off_w1_end = - off_w0_start;
          idx = nat ((i + half_h) * (2 * half_w + 1) + j + half_w);
          dest_h = slice_bounds hgt off_h0_start (hgt + off_h0_end);
          dest_w = slice_bounds wid off_w0_start (wid + off_w0_end);
          src_h = slice_bounds hgt off_h1_start (hgt + off_h1_end);
          src_w = slice_bounds wid off_w1_start (wid + off_w1_end)
      in (case assign_window dest_h dest_w src_h src_w (xyz_pair_off st idx) xyz1 of
            Inl e \<Rightarrow> Inl e
          | Inr x \<Rightarrow>
         (case assign_window dest_h dest_w src_h src_w (mask_pair_off st idx) mask1 of
            Inl e \<Rightarrow> Inl e
          | Inr m \<Rightarrow>
         (case hsv1 of
            None \<Rightarrow>
              Inr (st\<lparr>xyz_pair_off := (xyz_pair_off st)(idx := x),
                      mask_pair_off := (mask_pair_off st)(idx := m)\<rparr>)
          | Some hsv \<Rightarrow>
             (case assign_window dest_h dest_w src_h src_w (hsv_pair_off st idx) hsv of
                Inl e \<Rightarrow> Inl e
              | Inr c \<Rightarrow>
                  Inr (st\<lparr>xyz_pair_off := (xyz_pair_off st)(idx := x),
                          mask_pair_off := (mask_pair_off st)(idx := m),
                          hsv_pair_off := (hsv_pair_off st)(idx := c)\<rparr>)))))))"

fun fill_offsets ::
  "int \<Rightarrow> int \<Rightarrow> real list dense \<Rightarrow> bool dense \<Rightarrow> real list dense option
     \<Rightarrow> (int \<times> int) list \<Rightarrow> offsets \<Rightarrow> error + offsets" where
  "fill_offsets hgt wid xyz1 mask1 hsv1 [] st = Inr st"
| "fill_offsets hgt wid xyz1 mask1 hsv1 (ij # rest) st =
     (case fill_offset hgt wid xyz1 mask1 hsv1 ij st of
        Inl e \<Rightarrow> Inl e
      | Inr st' \<Rightarrow> fill_offsets hgt wid xyz1 mask1 hsv1 rest st')"

text \<open>
  The pairs \<open>(i, j)\<close> the loops \<open>for i in range(-half_h, half_h)\<close> and
  \<open>for j in range(-half_w, half_w)\<close> run through, in order.
\<close>

definition loop_offsets :: "(int \<times> int) list" where
  "loop_offsets = concat (map (\<lambda>i. map (\<lambda>j. (i, j)) [- half_w..half_w - 1]) [- half_h..half_h - 1])"

text \<open>
  The kernel value \<open>exp(-pow(norm(a - b), 2) / (2 ell ell))\<close> of two channel vectors.
\<close>

definition kern :: "real \<Rightarrow> real list \<Rightarrow> real list \<Rightarrow> real" where
  "kern ell a b = exp (- ((sqrt (sum_list (map (\<lambda>x. x * x) (map2 (-) a b)))) ^ 2) / (2 * ell * ell))"

text \<open>The three tensors of slots as \<open>torch.zeros\<close> creates them.\<close>

definition zero_offsets :: offsets where
  "zero_offsets =
     \<lparr>xyz_pair_off = (\<lambda>idx b h w. [0, 0, 0]),
      mask_pair_off = (\<lambda>idx b h w. False),
      hsv_pair_off = (\<lambda>idx b h w. [0, 0, 0])\<rparr>"

definition calc_inp_from_dense ::
  "real \<Rightarrow> nat \<Rightarrow> int \<Rightarrow> int \<Rightarrow> real list dense \<times> real list dense \<Rightarrow> bool dense \<times> bool dense
     \<Rightarrow> (real list dense \<times> real list dense) option \<Rightarrow> error + real" where
  "calc_inp_from_dense geo_scale batch_size hgt wid xyz_pair mask_pair hsv_pair =
     (let xyz_ell = geo_scale;
          hsv_ell = 0.4
      in (case fill_offsets hgt wid (snd xyz_pair) (snd mask_pair) (map_option snd hsv_pair)
                 loop_offsets zero_offsets of
            Inl e \<Rightarrow> Inl e
          | Inr st \<Rightarrow>
             (let diff_xyz = (\<lambda>b idx h w. kern xyz_ell (fst xyz_pair b h w) (xyz_pair_off st idx b h w));
                  diff = (case hsv_pair of
                            None \<Rightarrow> diff_xyz
                          | Some hsv \<Rightarrow>
                              (\<lambda>b idx h w. diff_xyz b idx h w
                                 * kern hsv_ell (fst hsv b h w) (hsv_pair_off st idx b h w)));
                  diff_masked = (\<lambda>a b idx h w. if mask_pair_off st idx a h w then diff b idx h w else 0);
                  exp_mask_halfsum = (\<lambda>a b h w. sum_list (map (\<lambda>idx. diff_masked a b idx h w) [0..<num_off]));
                  exp_mask_halfsum' = (\<lambda>a b h w. if fst mask_pair a h w then exp_mask_halfsum a b h w else 0);
                  exp_sum = sum_list (map (\<lambda>a. sum_list (map (\<lambda>b. sum_list (map (\<lambda>h. sum_list (map (\<lambda>w.
                               exp_mask_halfsum' a b h w) [0..wid - 1])) [0..hgt - 1])) [0..<batch_size]))
                             [0..<batch_size])
              in Inr exp_sum)))"

text \<open>
  The inner product as the specification words it, for a list of window offsets:
  every pixel of the first set whose mask is set is compared with the pixels of the
  other set at the given offsets that lie inside the image and whose mask is set.
\<close>

definition pair_kernel ::
  "real \<Rightarrow> real list dense \<times> real list dense \<Rightarrow> (real list dense \<times> real list dense) option
     \<Rightarrow> nat \<Rightarrow> int \<Rightarrow> int \<Rightarrow> int \<Rightarrow> int \<Rightarrow> real" where
  "pair_kernel ell xyz_pair hsv_pair b h w h' w' =
     (case hsv_pair of
        None \<Rightarrow> kern ell (fst xyz_pair b h w) (snd xyz_pair b h' w')
      | Some hsv \<Rightarrow> kern ell (fst xyz_pair b h w) (snd xyz_pair b h' w')
                      * kern 0.4 (fst hsv b h w) (snd hsv b h' w'))"

definition window_inp ::
  "(int \<times> int) list \<Rightarrow> real \<Rightarrow> nat \<Rightarrow> int \<Rightarrow> int \<Rightarrow> real list dense \<times> real list dense
     \<Rightarrow> bool dense \<times> bool dense \<Rightarrow> (real list dense \<times> real list dense) option \<Rightarrow> real" where
  "window_inp offs ell batch_size hgt wid xyz_pair mask_pair hsv_pair =
     sum_list (map (\<lambda>b. sum_list (map (\<lambda>h. sum_list (map (\<lambda>w.
       if fst mask_pair b h w
       then sum_list (map (\<lambda>(i, j).
              if inside hgt wid (h + i) (w + j) \<and> snd mask_pair b (h + i) (w + j)
              then pair_kernel ell xyz_pair hsv_pair b h w (h + i) (w + j) else 0) offs)
       else 0) [0..wid - 1])) [0..hgt - 1])) [0..<batch_size])"

text \<open>
  The same sum with the masks of sample \<open>a\<close> applied to the kernel values of sample
  \<open>b\<close>, for all pairs of samples of the batch.
\<close>

definition cross_window_inp ::
  "(int \<times> int) list \<Rightarrow> real \<Rightarrow> nat \<Rightarrow> int \<Rightarrow> int \<Rightarrow> real list dense \<times> real list dense
     \<Rightarrow> bool dense \<times> bool dense \<Rightarrow> (real list dense \<times> real list dense) option \<Rightarrow> real" where
  "cross_window_inp offs ell batch_size hgt wid xyz_pair mask_pair hsv_pair =
     sum_list (map (\<lambda>a. sum_list (map (\<lambda>b. sum_list (map (\<lambda>h. sum_list (map (\<lambda>w.
       if fst mask_pair a h w
       then sum_list (map (\<lambda>(i, j).
              if inside hgt wid (h + i) (w + j) \<and> snd mask_pair a (h + i) (w + j)
              then pair_kernel ell xyz_pair hsv_pair b h w (h + i) (w + j) else 0) offs)
       else 0) [0..wid - 1])) [0..hgt - 1])) [0..<batch_size])) [0..<batch_size])"

text \<open>The window of \<open>(2 half_h + 1) (2 half_w + 1)\<close> offsets of the specification.\<close>

definition full_window :: "(int \<times> int) list" where
  "full_window = concat (map (\<lambda>i. map (\<lambda>j. (i, j)) [- half_w..half_w]) [- half_h..half_h])"

text \<open>
  An example: all positions and colours equal, one valid pixel in each set, the pixel of
  the second set four rows below the pixel of the first.
\<close>

definition origin_pts :: "real list dense" where
  "origin_pts b h w = [0, 0, 0]"

definition mask_top :: "bool dense" where
  "mask_top b h w = (h = 0 \<and> w = 0)"

definition mask_below :: "bool dense" where
  "mask_below b h w = (h = 4 \<and> w = 0)"

text \<open>A second example, for a batch of two: only the first sample has a valid pixel.\<close>

definition mask_first :: "bool dense" where
  "mask_first b h w = (b = 0 \<and> h = 0 \<and> w = 0)"

text \<open>
  Notions for the analysis of the loops: the slot an offset pair is written to, the
  content of a slot after its assignment, and the tensors of slots after the loops have
  run through a list of offset pairs.
\<close>

definition off_idx :: "int \<times> int \<Rightarrow> nat" where
  "off_idx ij = (case ij of (i, j) \<Rightarrow> nat ((i + half_h) * (2 * half_w + 1) + j + half_w))"

definition shifted :: "int \<Rightarrow> int \<Rightarrow> int \<Rightarrow> int \<Rightarrow> 'a dense \<Rightarrow> 'a dense \<Rightarrow> 'a dense" where
  "shifted hgt wid i j src old =
     (\<lambda>b h w. if inside hgt wid h w \<and> inside hgt wid (h + i) (w + j)
               then src b (h + i) (w + j) else old b h w)"

definition slot_table :: "(int \<times> int) list \<Rightarrow> (nat \<times> (int \<times> int)) list" where
  "slot_table offs = map (\<lambda>ij. (off_idx ij, ij)) offs"

definition filled_slot ::
  "int \<Rightarrow> int \<Rightarrow> 'a dense \<Rightarrow> (int \<times> int) list \<Rightarrow> (nat \<Rightarrow> 'a dense) \<Rightarrow> nat \<Rightarrow> 'a dense" where
  "filled_slot hgt wid src offs old k =
     (case map_of (slot_table offs) k of
        None \<Rightarrow> old k
      | Some ij \<Rightarrow> shifted hgt wid (fst ij) (snd ij) src (old k))"

definition filled ::
  "int \<Rightarrow> int \<Rightarrow> real list dense \<Rightarrow> bool dense \<Rightarrow> real list dense option
     \<Rightarrow> (int \<times> int) list \<Rightarrow> offsets \<Rightarrow> offsets" where
  "filled hgt wid xyz1 mask1 hsv1 offs st =
     \<lparr>xyz_pair_off = filled_slot hgt wid xyz1 offs (xyz_pair_off st),
      mask_pair_off = filled_slot hgt wid mask1 offs (mask_pair_off st),
      hsv_pair_off = (case hsv1 of None \<Rightarrow> hsv_pair_off st
                      | Some hsv \<Rightarrow> filled_slot hgt wid hsv offs (hsv_pair_off st))\<rparr>"

section \<open>Properties of the CVO losses\<close>

lemma cos_sim_of_product:
  "fsub (Fin 1) (fdiv (Fin c) (fsqrt (Fin p))) =
     (if 0 < p then Fin (1 - c / sqrt p)
      else if p < 0 then NaN
      else if c = 0 then NaN
      else if 0 < c then NInf else PInf)"
  by (simp add: fsub_def)

lemma cos_sim_Fin:
  "0 < a * b \<Longrightarrow>
     fsub (Fin 1) (fdiv (Fin c) (fsqrt (fmul (Fin a) (Fin b)))) = Fin (1 - c / sqrt (a * b))"
  by (simp only: fmul.simps cos_sim_of_product if_True)

lemma cos_sim_finite_iff:
  "is_finite (fsub (Fin 1) (fdiv (Fin c) (fsqrt (fmul (Fin a) (Fin b))))) \<longleftrightarrow> 0 < a * b"
  by (simp only: fmul.simps cos_sim_of_product is_finite.simps split: if_split) simp

lemma f_dist_Fin:
  "fsub (fadd (Fin a) (Fin b)) (fmul (Fin 2) (Fin c)) = Fin (a + b - 2 * c)"
  by (simp add: fsub_def)

text \<open>
  Claim C1. For an identity frame pair \<open>(i, i)\<close> whose inner product is in the
  table, \<open>gen_cvo_loss_dense\<close> returns that inner product with \<open>f_dist = 0\<close> and
  \<open>cos_sim = 0\<close> exactly; no other entry of the table is read, so the result does
  not depend on any self inner product.
\<close>

theorem gen_cvo_loss_dense_identity:
  "innerps ((i, i), scale, gt_pair) = Some inp \<Longrightarrow>
     gen_cvo_loss_dense innerps (i, i) scale gt_pair = Inr (inp, Fin 0, Fin 0)"
  by (simp add: gen_cvo_loss_dense_def split: prod.splits)

theorem gen_cvo_loss_dense_identity_witness:
  "[((Frame 1, Frame 1), 0, (True, False)) \<mapsto> Fin 7] ((Frame 1, Frame 1), 0, (True, False)) = Some (Fin 7)
   \<and> gen_cvo_loss_dense [((Frame 1, Frame 1), 0, (True, False)) \<mapsto> Fin 7] (Frame 1, Frame 1) 0 (True, False)
       = Inr (Fin 7, Fin 0, Fin 0)"
  using gen_cvo_loss_dense_identity
    [of "[((Frame 1, Frame 1), 0, (True, False)) \<mapsto> Fin 7]" "Frame 1" 0 "(True, False)" "Fin 7"]
  by simp

text \<open>
  Claim C2 (as amended). Neither cosine-similarity computation guards its denominator.
  For finite inner products the returned \<open>cos_sim\<close> is finite exactly when the product
  of the two self inner products is positive; when that product is zero the division
  yields a NaN or an infinity, which is returned as it is.
\<close>

theorem cos_sim_finite_iff_positive:
  "(inner_prods (0, 0) = Some (Fin a) \<and> inner_prods (1, 1) = Some (Fin b)
      \<and> inner_prods (0, 1) = Some (Fin c) \<longrightarrow>
      (\<exists>d s. loss_from_inner_prod inner_prods = Inr (d, s) \<and> (is_finite s \<longleftrightarrow> 0 < a * b)))
   \<and> (i \<noteq> j \<and> innerps ((i, j), scale, (gt_i, gt_j)) = Some (Fin c)
      \<and> innerps ((i, i), scale, (gt_i, gt_i)) = Some (Fin a)
      \<and> innerps ((j, j), scale, (gt_j, gt_j)) = Some (Fin b) \<longrightarrow>
      (\<exists>d s. gen_cvo_loss_dense innerps (i, j) scale (gt_i, gt_j) = Inr (Fin c, d, s)
          \<and> (is_finite s \<longleftrightarrow> 0 < a * b)))"
  by (simp add: loss_from_inner_prod_def gen_cvo_loss_dense_def Let_def cos_sim_finite_iff
      del: fmul.simps fdiv.simps fsqrt.simps)

theorem cos_sim_finite_iff_positive_witness:
  "(\<exists>d s. loss_from_inner_prod [(0, 0) \<mapsto> Fin 2, (1, 1) \<mapsto> Fin 3, (0, 1) \<mapsto> Fin 1] = Inr (d, s)
      \<and> is_finite s)
   \<and> (\<exists>d s. gen_cvo_loss_dense
         [((Frame 0, Frame 0), 0, (True, True)) \<mapsto> Fin 2,
          ((Frame 1, Frame 1), 0, (True, True)) \<mapsto> Fin 3,
          ((Frame 0, Frame 1), 0, (True, True)) \<mapsto> Fin 1]
         (Frame 0, Frame 1) 0 (True, True) = Inr (Fin 1, d, s) \<and> is_finite s)"
  using cos_sim_finite_iff_positive
    [of "[(0, 0) \<mapsto> Fin 2, (1, 1) \<mapsto> Fin 3, (0, 1) \<mapsto> Fin 1]" 2 3 1
        "Frame 0" "Frame 1"
        "[((Frame 0, Frame 0), 0, (True, True)) \<mapsto> Fin 2,
          ((Frame 1, Frame 1), 0, (True, True)) \<mapsto> Fin 3,
          ((Frame 0, Frame 1), 0, (True, True)) \<mapsto> Fin 1]" 0 True True]
  by simp

text \<open>
  The claim as stated fails where a point set is empty or fully masked: both self
  inner products and the cross inner product are then \<open>0\<close>, and \<open>cos_sim\<close> is a NaN
  on the sparse path and on the dense path alike.
\<close>

theorem cos_sim_unguarded_counterexample:
  "loss_from_inner_prod [(0, 0) \<mapsto> Fin 0, (1, 1) \<mapsto> Fin 1, (0, 1) \<mapsto> Fin 0] = Inr (Fin 1, NaN)
   \<and> gen_cvo_loss_dense
         [((Frame 0, Frame 0), 0, (True, True)) \<mapsto> Fin 0,
          ((Frame 1, Frame 1), 0, (True, True)) \<mapsto> Fin 1,
          ((Frame 0, Frame 1), 0, (True, True)) \<mapsto> Fin 0]
         (Frame 0, Frame 1) 0 (True, True) = Inr (Fin 0, Fin 1, NaN)
   \<and> \<not> is_finite NaN"
  by (simp add: loss_from_inner_prod_def gen_cvo_loss_dense_def fsub_def)

text \<open>
  Claim C3. For finite inner products of two different point sets, both code paths
  return \<open>f_dist = inp(0,0) + inp(1,1) - 2 inp(0,1)\<close>, and, the product of the self
  inner products being positive, \<open>cos_sim = 1 - inp(0,1) / sqrt (inp(0,0) inp(1,1))\<close>.
\<close>

theorem cvo_losses_from_inner_products:
  "(inner_prods (0, 0) = Some (Fin a) \<and> inner_prods (1, 1) = Some (Fin b)
      \<and> inner_prods (0, 1) = Some (Fin c) \<longrightarrow>
      (\<exists>s. loss_from_inner_prod inner_prods = Inr (Fin (a + b - 2 * c), s)
          \<and> (0 < a * b \<longrightarrow> s = Fin (1 - c / sqrt (a * b)))))
   \<and> (i \<noteq> j \<and> innerps ((i, j), scale, (gt_i, gt_j)) = Some (Fin c)
      \<and> innerps ((i, i), scale, (gt_i, gt_i)) = Some (Fin a)
      \<and> innerps ((j, j), scale, (gt_j, gt_j)) = Some (Fin b) \<longrightarrow>
      (\<exists>s. gen_cvo_loss_dense innerps (i, j) scale (gt_i, gt_j)
            = Inr (Fin c, Fin (a + b - 2 * c), s)
          \<and> (0 < a * b \<longrightarrow> s = Fin (1 - c / sqrt (a * b)))))"
  by (simp add: loss_from_inner_prod_def gen_cvo_loss_dense_def Let_def cos_sim_Fin f_dist_Fin
      del: fmul.simps fdiv.simps fsqrt.simps fadd.simps)

theorem cvo_losses_from_inner_products_witness:
  "loss_from_inner_prod [(0, 0) \<mapsto> Fin 1, (1, 1) \<mapsto> Fin 1, (0, 1) \<mapsto> Fin (1 / 2)]
     = Inr (Fin 1, Fin (1 / 2))
   \<and> gen_cvo_loss_dense
         [((Frame 0, Frame 0), 0, (True, True)) \<mapsto> Fin 1,
          ((Frame (- 1), Frame (- 1)), 0, (False, False)) \<mapsto> Fin 1,
          ((Frame 0, Frame (- 1)), 0, (True, False)) \<mapsto> Fin (1 / 2)]
         (Frame 0, Frame (- 1)) 0 (True, False) = Inr (Fin (1 / 2), Fin 1, Fin (1 / 2))"
  using cvo_losses_from_inner_products
    [of "[(0, 0) \<mapsto> Fin 1, (1, 1) \<mapsto> Fin 1, (0, 1) \<mapsto> Fin (1 / 2)]" 1 1 "1 / 2"
        "Frame 0" "Frame (- 1)"
        "[((Frame 0, Frame 0), 0, (True, True)) \<mapsto> Fin 1,
          ((Frame (- 1), Frame (- 1)), 0, (False, False)) \<mapsto> Fin 1,
          ((Frame 0, Frame (- 1)), 0, (True, False)) \<mapsto> Fin (1 / 2)]" 0 True False]
  by simp

section \<open>Properties of the sampling, the photometric loss and the constructor\<close>


lemma index_select_ok:
  "set idx \<subseteq> {0..<length x} \<Longrightarrow> index_select x idx = Inr (map (\<lambda>k. x ! k) idx)"
  by (auto simp: index_select_def list_all_iff)

lemma take_perm_props:
  assumes "is_permutation n perm" and "cap < n"
  shows "length (take cap perm) = cap" and "distinct (take cap perm)"
    and "set (take cap perm) \<subseteq> {0..<n}"
proof -
  from assms(1) have d: "distinct perm" and s: "set perm = {0..<n}"
    by (simp_all add: is_permutation_def)
  from d s have "length perm = n"
    using distinct_card [of perm] by simp
  with assms(2) show "length (take cap perm) = cap" by simp
  from d show "distinct (take cap perm)" by simp
  from s show "set (take cap perm) \<subseteq> {0..<n}"
    using set_take_subset [of cap perm] by simp
qed

lemma select_pts_all:
  "length xyz \<le> cap \<Longrightarrow> select_pts cap randperm xyz rgb = Inr (rows_0_3 xyz, rgb)"
  by (simp add: select_pts_def)

lemma subsample_pts_all:
  "length xyz \<le> cap \<Longrightarrow> subsample_pts cap randperm xyz rgb = Inr (xyz, rgb)"
  by (simp add: subsample_pts_def)

lemma select_pts_sampled:
  assumes "cap < length xyz" and "length rgb = length xyz"
    and "is_permutation (length xyz) (randperm (length xyz))"
  shows "select_pts cap randperm xyz rgb =
     Inr (map (\<lambda>k. take 3 (xyz ! k)) (take cap (randperm (length xyz))),
          map (\<lambda>k. rgb ! k) (take cap (randperm (length xyz))))"
proof -
  let ?idx = "take cap (randperm (length xyz))"
  have sub: "set ?idx \<subseteq> {0..<length xyz}"
    using take_perm_props(3) [OF assms(3) assms(1)] .
  then have sub': "set ?idx \<subseteq> {0..<length rgb}" using assms(2) by simp
  show ?thesis
    using assms(1) index_select_ok [OF sub] index_select_ok [OF sub']
    by (simp add: select_pts_def Let_def rows_0_3_def)
qed

lemma subsample_pts_sampled:
  assumes "cap < length xyz" and "length rgb = length xyz"
    and "is_permutation (length xyz) (randperm (length xyz))"
  shows "subsample_pts cap randperm xyz rgb =
     Inr (map (\<lambda>k. xyz ! k) (take cap (randperm (length xyz))),
          map (\<lambda>k. rgb ! k) (take cap (randperm (length xyz))))"
proof -
  let ?idx = "take cap (randperm (length xyz))"
  have sub: "set ?idx \<subseteq> {0..<length xyz}"
    using take_perm_props(3) [OF assms(3) assms(1)] .
  then have sub': "set ?idx \<subseteq> {0..<length rgb}" using assms(2) by simp
  show ?thesis
    using assms(1) index_select_ok [OF sub] index_select_ok [OF sub']
    by (simp add: subsample_pts_def Let_def)
qed

text \<open>
  Claim C4. The caps are 3500 in \<open>compute_losses\<close> and 5000 in
  \<open>calc_cvo_pose_loss\<close>. A point set with at most that many points is used whole. A
  larger one is reduced to exactly the cap: the indices are the first \<open>cap\<close> entries
  of the permutation drawn for the set, so they are distinct and within range, and the
  positions and the colours are read at the same indices. That the permutation is
  uniformly distributed is the random generator's property and is not part of the
  model.
\<close>

theorem sampling_cap:
  "samp_pt = 3500 \<and> samp_num = 5000
   \<and> (length xyz \<le> samp_pt \<longrightarrow>
        compute_losses_select randperm xyz rgb = Inr (rows_0_3 xyz, rgb))
   \<and> (length xyz' \<le> samp_num \<longrightarrow>
        calc_cvo_pose_loss_select randperm xyz' rgb' = Inr (xyz', rgb'))
   \<and> (samp_pt < length pts \<and> length cols = length pts
        \<and> is_permutation (length pts) (randperm (length pts)) \<longrightarrow>
        (\<exists>idx. idx = take samp_pt (randperm (length pts))
           \<and> length idx = samp_pt \<and> distinct idx \<and> set idx \<subseteq> {0..<length pts}
           \<and> compute_losses_select randperm pts cols
               = Inr (map (\<lambda>k. take 3 (pts ! k)) idx, map (\<lambda>k. cols ! k) idx)))
   \<and> (samp_num < length pts' \<and> length cols' = length pts'
        \<and> is_permutation (length pts') (randperm (length pts')) \<longrightarrow>
        (\<exists>idx. idx = take samp_num (randperm (length pts'))
           \<and> length idx = samp_num \<and> distinct idx \<and> set idx \<subseteq> {0..<length pts'}
           \<and> calc_cvo_pose_loss_select randperm pts' cols'
               = Inr (map (\<lambda>k. pts' ! k) idx, map (\<lambda>k. cols' ! k) idx)))"
proof (intro conjI impI)
  show "samp_pt = 3500" by (simp add: samp_pt_def)
  show "samp_num = 5000" by (simp add: samp_num_def)
next
  assume "length xyz \<le> samp_pt"
  then show "compute_losses_select randperm xyz rgb = Inr (rows_0_3 xyz, rgb)"
    by (simp add: compute_losses_select_def select_pts_all)
next
  assume "length xyz' \<le> samp_num"
  then show "calc_cvo_pose_loss_select randperm xyz' rgb' = Inr (xyz', rgb')"
    by (simp add: calc_cvo_pose_loss_select_def subsample_pts_all)
next
  assume a: "samp_pt < length pts \<and> length cols = length pts
        \<and> is_permutation (length pts) (randperm (length pts))"
  then have p: "is_permutation (length pts) (randperm (length pts))" and c: "samp_pt < length pts"
    by simp_all
  show "\<exists>idx. idx = take samp_pt (randperm (length pts))
           \<and> length idx = samp_pt \<and> distinct idx \<and> set idx \<subseteq> {0..<length pts}
           \<and> compute_losses_select randperm pts cols
               = Inr (map (\<lambda>k. take 3 (pts ! k)) idx, map (\<lambda>k. cols ! k) idx)"
    using a take_perm_props [OF p c] select_pts_sampled [of samp_pt pts cols randperm]
    by (simp add: compute_losses_select_def)
next
  assume a: "samp_num < length pts' \<and> length cols' = length pts'
        \<and> is_permutation (length pts') (randperm (length pts'))"
  then have p: "is_permutation (length pts') (randperm (length pts'))" and c: "samp_num < length pts'"
    by simp_all
  show "\<exists>idx. idx = take samp_num (randperm (length pts'))
           \<and> length idx = samp_num \<and> distinct idx \<and> set idx \<subseteq> {0..<length pts'}
           \<and> calc_cvo_pose_loss_select randperm pts' cols'
               = Inr (map (\<lambda>k. pts' ! k) idx, map (\<lambda>k. cols' ! k) idx)"
    using a take_perm_props [OF p c] subsample_pts_sampled [of samp_num pts' cols' randperm]
    by (simp add: calc_cvo_pose_loss_select_def)
qed

theorem sampling_cap_witness:
  "compute_losses_select (upt 0) [[1, 2, 3, 1]] [[0, 0, 0]] = Inr ([[1, 2, 3]], [[0, 0, 0]])
   \<and> calc_cvo_pose_loss_select (upt 0) [[1, 2, 3]] [[0, 0, 0]] = Inr ([[1, 2, 3]], [[0, 0, 0]])
   \<and> (\<exists>idx. length idx = samp_pt \<and> distinct idx
         \<and> compute_losses_select (upt 0) (replicate 3501 [1, 2, 3, 1]) (replicate 3501 [0, 0, 0])
             = Inr (map (\<lambda>k. take 3 (replicate 3501 [1, 2, 3, 1] ! k)) idx,
                    map (\<lambda>k. replicate 3501 [0, 0, 0] ! k) idx))
   \<and> (\<exists>idx. length idx = samp_num \<and> distinct idx
         \<and> calc_cvo_pose_loss_select (upt 0) (replicate 5001 [1, 2, 3]) (replicate 5001 [0, 0, 0])
             = Inr (map (\<lambda>k. replicate 5001 [1, 2, 3] ! k) idx,
                    map (\<lambda>k. replicate 5001 [0, 0, 0] ! k) idx))"
proof -
  have small: "length [[1, 2, 3, 1::real]] \<le> samp_pt" "length [[1, 2, 3::real]] \<le> samp_num"
    by (simp_all add: samp_pt_def samp_num_def)
  have big: "samp_pt < length (replicate 3501 [1, 2, 3, 1::real])"
    "length (replicate 3501 [0, 0, 0::real]) = length (replicate 3501 [1, 2, 3, 1::real])"
    "samp_num < length (replicate 5001 [1, 2, 3::real])"
    "length (replicate 5001 [0, 0, 0::real]) = length (replicate 5001 [1, 2, 3::real])"
    by (simp_all add: samp_pt_def samp_num_def)
  have perm: "is_permutation n (upt 0 n)" for n
    by (simp add: is_permutation_def)
  from sampling_cap [of "[[1, 2, 3, 1]]" "upt 0" "[[0, 0, 0]]" "[[1, 2, 3]]" "[[0, 0, 0]]"
      "replicate 3501 [1, 2, 3, 1]" "replicate 3501 [0, 0, 0]"
      "replicate 5001 [1, 2, 3]" "replicate 5001 [0, 0, 0]"]
  show ?thesis
    using small big perm unfolding rows_0_3_def by fastforce
qed

lemma min_list_le_member: "x \<in> set xs \<Longrightarrow> min_list xs \<le> (x::real)"
  using min_list_Min [of xs] by (cases xs) auto

lemma min_over_channels_le: "x \<in> set combined \<Longrightarrow> min_over_channels combined \<le> x"
proof (cases "length combined = 1")
  case True
  assume "x \<in> set combined"
  with True show ?thesis by (cases combined) (auto simp: min_over_channels_def)
next
  case False
  assume "x \<in> set combined"
  with False show ?thesis by (simp add: min_over_channels_def min_list_le_member)
qed

text \<open>
  Claim C5 (as amended). With automasking enabled and at least one neighbour frame,
  the value selected at a pixel is at most each warped reprojection loss of that pixel
  when \<open>avg_reprojection\<close> is off, and at most the mean of the warped reprojection
  losses when it is on.
\<close>

theorem automask_min_le:
  "\<not> disable_automasking opt \<and> reprojection_losses \<noteq> [] \<longrightarrow>
     (\<exists>v. to_optimise_at opt reprojection_losses identity_reprojection_losses mask_vals randn = Inr v
        \<and> (if avg_reprojection opt then v \<le> mean_ch reprojection_losses
            else \<forall>x \<in> set reprojection_losses. v \<le> x))"
  by (simp add: to_optimise_at_def Let_def min_over_channels_le)

theorem automask_min_le_witness:
  "(\<exists>v. to_optimise_at
        opts0
        [1, 3] [5, 2] [] no_noise = Inr v \<and> v \<le> 1 \<and> v \<le> 3)
   \<and> (\<exists>v. to_optimise_at
        (opts0\<lparr>avg_reprojection := True\<rparr>)
        [1, 3] [5, 2] [] no_noise = Inr v \<and> v \<le> mean_ch [1, 3])"
  using automask_min_le
    [of "opts0"
        "[1, 3]" "[5, 2]" "[]" no_noise]
    automask_min_le
    [of "opts0\<lparr>avg_reprojection := True\<rparr>"
        "[1, 3]" "[5, 2]" "[]" no_noise]
  by (simp add: opts0_def)

text \<open>
  With \<open>avg_reprojection\<close> on, the candidates are the two means. For warped losses
  \<open>1\<close> and \<open>3\<close> and identity losses \<open>5\<close> and \<open>5\<close> the selected value is the
  mean \<open>2\<close>, which exceeds the first warped loss.
\<close>

theorem automask_avg_counterexample:
  "to_optimise_at
        (opts0\<lparr>avg_reprojection := True\<rparr>)
        [1, 3] [5, 5] [] no_noise = Inr 2
   \<and> \<not> (2::real) \<le> [1, 3] ! 0"
  by (simp add: to_optimise_at_def mean_ch_def no_noise_def min_over_channels_def opts0_def Let_def)

lemma mean_ch_abs_diff:
  "length xs = length ys \<Longrightarrow>
     mean_ch (map2 (\<lambda>t q. \<bar>t - q\<bar>) xs ys) = (\<Sum>k<length xs. \<bar>xs ! k - ys ! k\<bar>) / real (length xs)"
  by (simp add: mean_ch_def sum_list_sum_nth atLeast0LessThan)

text \<open>
  Claim C6. At every pixel the reprojection loss is the mean over the channels of the
  absolute difference when \<open>no_ssim\<close> is set, and otherwise \<open>0.85\<close> times the
  channel mean of the structural-similarity loss plus \<open>0.15\<close> times that mean
  absolute difference.
\<close>

theorem reprojection_loss_formula:
  "length (pred p) = length (target p) \<longrightarrow>
     compute_reprojection_loss opt ssim pred target p =
       (let l1 = (\<Sum>k<length (target p). \<bar>target p ! k - pred p ! k\<bar>) / real (length (target p))
        in if no_ssim opt then [l1]
           else [0.85 * mean_ch (ssim pred target p) + 0.15 * l1])"
  by (simp add: compute_reprojection_loss_def mean1_def Let_def mean_ch_abs_diff)

theorem reprojection_loss_formula_witness:
  "compute_reprojection_loss
      (opts0\<lparr>no_ssim := True\<rparr>)
      (\<lambda>a b q. [1 / 5, 2 / 5, 3 / 5]) (\<lambda>q. [1, 2, 3]) (\<lambda>q. [2, 2, 5]) (0, 0, 0) = [1]
   \<and> compute_reprojection_loss
      opts0
      (\<lambda>a b q. [1 / 5, 2 / 5, 3 / 5]) (\<lambda>q. [1, 2, 3]) (\<lambda>q. [2, 2, 5]) (0, 0, 0) = [49 / 100]"
  using reprojection_loss_formula
    [of "\<lambda>q. [1, 2, 3]" "(0, 0, 0)" "\<lambda>q. [2, 2, 5]"
      "opts0\<lparr>no_ssim := True\<rparr>"
      "\<lambda>a b q. [1 / 5, 2 / 5, 3 / 5]"]
    reprojection_loss_formula
    [of "\<lambda>q. [1, 2, 3]" "(0, 0, 0)" "\<lambda>q. [2, 2, 5]"
      "opts0"
      "\<lambda>a b q. [1 / 5, 2 / 5, 3 / 5]"]
  by (simp add: mean_ch_def lessThan_Suc numeral_3_eq_3 opts0_def)

lemma Trainer_init_height:
  "height opt mod 32 \<noteq> 0 \<Longrightarrow> is_assertion (Trainer_init opt)"
  by (simp add: Trainer_init_def)

lemma Trainer_init_width:
  "width opt mod 32 \<noteq> 0 \<Longrightarrow> is_assertion (Trainer_init opt)"
  by (simp add: Trainer_init_def)

lemma Trainer_init_frame:
  "frame_ids opt = f # fs \<Longrightarrow> f \<noteq> Frame 0 \<Longrightarrow> is_assertion (Trainer_init opt)"
  by (simp add: Trainer_init_def)

lemma Trainer_init_mask:
  "frame_ids opt = f # fs \<Longrightarrow> known_pose_model opt \<Longrightarrow> predictive_mask opt
     \<Longrightarrow> \<not> disable_automasking opt \<Longrightarrow> is_assertion (Trainer_init opt)"
  by (simp add: Trainer_init_def known_pose_model_def Let_def)

lemma Trainer_init_ok:
  "height opt mod 32 = 0 \<Longrightarrow> width opt mod 32 = 0 \<Longrightarrow> frame_ids opt = Frame 0 # fs
     \<Longrightarrow> predictive_mask opt \<longrightarrow> disable_automasking opt
     \<Longrightarrow> \<not> is_assertion (Trainer_init opt)
         \<and> (known_pose_model opt \<longrightarrow> Trainer_init opt = Inr ())"
  by (auto simp: Trainer_init_def known_pose_model_def Let_def)

text \<open>
  Claim C7. The constructor fails with an assertion when the height, or the width, is
  not a multiple of 32, when \<open>frame_ids[0]\<close> is not 0, and when the predictive mask is
  requested while automasking is not disabled (the last for a non-empty \<open>frame_ids\<close>
  and a pose model type the constructor knows, without which it fails earlier with
  another exception). When the four conditions are met no assertion fires, and the
  checks pass for a known pose model type.
\<close>

theorem Trainer_init_assertions:
  "(height opt mod 32 \<noteq> 0 \<longrightarrow> is_assertion (Trainer_init opt))
   \<and> (width opt mod 32 \<noteq> 0 \<longrightarrow> is_assertion (Trainer_init opt))
   \<and> (frame_ids opt \<noteq> [] \<and> hd (frame_ids opt) \<noteq> Frame 0 \<longrightarrow> is_assertion (Trainer_init opt))
   \<and> (frame_ids opt \<noteq> [] \<and> known_pose_model opt \<and> predictive_mask opt
        \<and> \<not> disable_automasking opt \<longrightarrow> is_assertion (Trainer_init opt))
   \<and> (height opt mod 32 = 0 \<and> width opt mod 32 = 0
        \<and> frame_ids opt \<noteq> [] \<and> hd (frame_ids opt) = Frame 0
        \<and> (predictive_mask opt \<longrightarrow> disable_automasking opt) \<longrightarrow>
        \<not> is_assertion (Trainer_init opt)
        \<and> (known_pose_model opt \<longrightarrow> Trainer_init opt = Inr ()))"
proof (cases "frame_ids opt")
  case Nil
  then show ?thesis
    by (simp add: Trainer_init_height Trainer_init_width)
next
  case (Cons f fs)
  then show ?thesis
    using Trainer_init_frame [of opt f fs] Trainer_init_mask [of opt f fs]
      Trainer_init_ok [of opt fs]
    by (auto simp: Trainer_init_height Trainer_init_width)
qed

theorem Trainer_init_assertions_witness:
  "is_assertion (Trainer_init (opts0\<lparr>height := 200\<rparr>))
   \<and> is_assertion (Trainer_init (opts0\<lparr>width := 650\<rparr>))
   \<and> is_assertion (Trainer_init (opts0\<lparr>frame_ids := [Frame 1, Frame 0]\<rparr>))
   \<and> is_assertion (Trainer_init (opts0\<lparr>predictive_mask := True\<rparr>))
   \<and> Trainer_init opts0 = Inr ()
   \<and> Trainer_init (opts0\<lparr>predictive_mask := True, disable_automasking := True\<rparr>) = Inr ()"
  using Trainer_init_assertions [of "opts0\<lparr>height := 200\<rparr>"]
    Trainer_init_assertions [of "opts0\<lparr>width := 650\<rparr>"]
    Trainer_init_assertions [of "opts0\<lparr>frame_ids := [Frame 1, Frame 0]\<rparr>"]
    Trainer_init_assertions [of "opts0\<lparr>predictive_mask := True\<rparr>"]
    Trainer_init_assertions [of opts0]
    Trainer_init_assertions [of "opts0\<lparr>predictive_mask := True, disable_automasking := True\<rparr>"]
  by (simp add: opts0_def known_pose_model_def)

section \<open>Properties of the intrinsics and of the depth mask\<close>


lemma scale_rows_eq:
  "2 \<le> length K \<Longrightarrow>
     (case scale_row 0 a K of Inl e \<Rightarrow> Inl e | Inr K0 \<Rightarrow>
       (case scale_row 1 b K0 of Inl e \<Rightarrow> Inl e | Inr K1 \<Rightarrow> Inr K1))
     = Inr (map (\<lambda>x. x * a) (K ! 0) # map (\<lambda>x. x * b) (K ! 1) # drop 2 K)"
proof -
  assume "2 \<le> length K"
  then obtain r0 r1 rest where K: "K = r0 # r1 # rest"
    by (cases K; cases "tl K") auto
  show ?thesis by (simp add: K scale_row_def)
qed

lemma load_intrinsics_step:
  "2 \<le> length K_base \<Longrightarrow>
     load_intrinsics pinv w h K_base (scale # scales) inputs =
       load_intrinsics pinv w h K_base scales
         (inputs((''K'', scale) \<mapsto> scaled_K w h scale K_base,
                 (''inv_K'', scale) \<mapsto> pinv (scaled_K w h scale K_base)))"
proof -
  assume len: "2 \<le> length K_base"
  then obtain r0 r1 rest where K: "K_base = r0 # r1 # rest"
    by (cases K_base; cases "tl K_base") auto
  show ?thesis by (simp add: K scale_row_def scaled_K_def Let_def)
qed

lemma load_intrinsics_result:
  assumes "2 \<le> length K_base"
  shows "\<exists>inputs'. load_intrinsics pinv w h K_base scales inputs = Inr inputs'
     \<and> (\<forall>s \<in> set scales.
           inputs' (''K'', s) = Some (scaled_K w h s K_base)
           \<and> inputs' (''inv_K'', s) = Some (pinv (scaled_K w h s K_base)))
     \<and> (\<forall>k. snd k \<notin> set scales \<longrightarrow> inputs' k = inputs k)"
proof (induction scales arbitrary: inputs)
  case Nil
  show ?case by simp
next
  case (Cons scale scales)
  let ?inputs1 = "inputs((''K'', scale) \<mapsto> scaled_K w h scale K_base,
                 (''inv_K'', scale) \<mapsto> pinv (scaled_K w h scale K_base))"
  from Cons.IH [of ?inputs1] obtain inputs' where
    r: "load_intrinsics pinv w h K_base scales ?inputs1 = Inr inputs'"
    and written: "\<forall>s \<in> set scales.
           inputs' (''K'', s) = Some (scaled_K w h s K_base)
           \<and> inputs' (''inv_K'', s) = Some (pinv (scaled_K w h s K_base))"
    and kept: "\<forall>k. snd k \<notin> set scales \<longrightarrow> inputs' k = ?inputs1 k"
    by blast
  have "load_intrinsics pinv w h K_base (scale # scales) inputs = Inr inputs'"
    using r load_intrinsics_step [OF assms] by simp
  moreover have "inputs' (''K'', s) = Some (scaled_K w h s K_base)
           \<and> inputs' (''inv_K'', s) = Some (pinv (scaled_K w h s K_base))"
    if "s \<in> set (scale # scales)" for s
  proof (cases "s \<in> set scales")
    case True
    with written show ?thesis by blast
  next
    case False
    with that have "s = scale" by simp
    with False kept show ?thesis by simp
  qed
  moreover have "inputs' k = inputs k" if "snd k \<notin> set (scale # scales)" for k
  proof -
    from that have "snd k \<notin> set scales" and "snd k \<noteq> scale" by simp_all
    with kept show ?thesis by (cases k) auto
  qed
  ultimately show ?case by blast
qed

lemma scaled_K_rows:
  "2 \<le> length K_base \<Longrightarrow>
     length (scaled_K w h s K_base) = length K_base
     \<and> scaled_K w h s K_base ! 0 = map (\<lambda>x. x * real_of_int (w div 2 ^ s)) (K_base ! 0)
     \<and> scaled_K w h s K_base ! 1 = map (\<lambda>x. x * real_of_int (h div 2 ^ s)) (K_base ! 1)
     \<and> (\<forall>r. 2 \<le> r \<and> r < length K_base \<longrightarrow> scaled_K w h s K_base ! r = K_base ! r)"
proof -
  assume "2 \<le> length K_base"
  then obtain r0 r1 rest where K: "K_base = r0 # r1 # rest"
    by (cases K_base; cases "tl K_base") auto
  show ?thesis
    by (auto simp: K scaled_K_def nth_Cons split: nat.splits)
qed

text \<open>
  Claim C9. For every scale \<open>s\<close> of the data set the stored matrix \<open>K\<close> is the base
  matrix with its first row multiplied by \<open>width // 2^s\<close> and its second row by
  \<open>height // 2^s\<close>, the further rows unchanged (each scale starts from a fresh copy
  of the base matrix), and the stored \<open>inv_K\<close> is the result of the pseudo-inverse
  routine on that scaled \<open>K\<close>: where the routine returns a matrix satisfying the
  Penrose equations for \<open>K\<close>, so does \<open>inv_K\<close>.
\<close>

theorem intrinsics_per_scale:
  "s < num_scales \<and> 2 \<le> length K_base \<longrightarrow>
     (\<exists>inputs' K inv_K.
        get_depth_related_K pinv ds_width ds_height num_scales K_base inputs = Inr inputs'
        \<and> inputs' (''K'', s) = Some K \<and> inputs' (''inv_K'', s) = Some inv_K
        \<and> length K = length K_base
        \<and> K ! 0 = map (\<lambda>x. x * real_of_int (ds_width div 2 ^ s)) (K_base ! 0)
        \<and> K ! 1 = map (\<lambda>x. x * real_of_int (ds_height div 2 ^ s)) (K_base ! 1)
        \<and> (\<forall>r. 2 \<le> r \<and> r < length K_base \<longrightarrow> K ! r = K_base ! r)
        \<and> inv_K = pinv K
        \<and> (moore_penrose K (pinv K) \<longrightarrow> moore_penrose K inv_K))"
proof (intro impI, elim conjE)
  assume s: "s < num_scales" and len: "2 \<le> length K_base"
  from load_intrinsics_result [OF len, of pinv ds_width ds_height "[0..<num_scales]" inputs]
  obtain inputs' where
    r: "load_intrinsics pinv ds_width ds_height K_base [0..<num_scales] inputs = Inr inputs'"
    and written: "\<forall>s \<in> set [0..<num_scales].
           inputs' (''K'', s) = Some (scaled_K ds_width ds_height s K_base)
           \<and> inputs' (''inv_K'', s) = Some (pinv (scaled_K ds_width ds_height s K_base))"
    by blast
  from s written have
    "inputs' (''K'', s) = Some (scaled_K ds_width ds_height s K_base)"
    "inputs' (''inv_K'', s) = Some (pinv (scaled_K ds_width ds_height s K_base))"
    by simp_all
  with r scaled_K_rows [OF len, of ds_width ds_height s] show
    "\<exists>inputs' K inv_K.
        get_depth_related_K pinv ds_width ds_height num_scales K_base inputs = Inr inputs'
        \<and> inputs' (''K'', s) = Some K \<and> inputs' (''inv_K'', s) = Some inv_K
        \<and> length K = length K_base
        \<and> K ! 0 = map (\<lambda>x. x * real_of_int (ds_width div 2 ^ s)) (K_base ! 0)
        \<and> K ! 1 = map (\<lambda>x. x * real_of_int (ds_height div 2 ^ s)) (K_base ! 1)
        \<and> (\<forall>r. 2 \<le> r \<and> r < length K_base \<longrightarrow> K ! r = K_base ! r)
        \<and> inv_K = pinv K
        \<and> (moore_penrose K (pinv K) \<longrightarrow> moore_penrose K inv_K)"
    by (simp add: get_depth_related_K_def)
qed

lemma binary_closing_extensive:
  assumes "inside h w r c" and "img r c"
  shows "binary_closing h w selem img r c"
  unfolding binary_closing_def binary_erosion_def list_all_iff
proof (intro ballI)
  fix x assume x: "x \<in> set selem"
  obtain dr dc where d: "x = (dr, dc)" by (cases x)
  have "binary_dilation h w selem img (r + dr) (c + dc)"
    unfolding binary_dilation_def list_ex_iff
    using x d assms by (intro bexI [of _ x]) simp_all
  then show "case x of (dr, dc) \<Rightarrow>
       \<not> inside h w (r + dr) (c + dc) \<or> binary_dilation h w selem img (r + dr) (c + dc)"
    by (simp add: d)
qed

lemma lower_half_nonneg: "n div 2 \<le> r \<Longrightarrow> r < n \<Longrightarrow> (0::int) \<le> r"
  by presburger

text \<open>
  Claim C10. Whatever the depth map and the structuring element, the depth mask of a
  scale is set at every pixel of the rows from \<open>new_h div 2\<close> down: these rows are
  set before the closing, and the closing clears no set pixel.
\<close>

theorem depth_mask_bottom_half:
  "ds_height div 2 ^ j div 2 \<le> r \<and> r < ds_height div 2 ^ j \<and> 0 \<le> c \<and> c < ds_width div 2 ^ j \<longrightarrow>
     depth_mask dilate_struct ds_height ds_width j depth_gt r c"
proof (intro impI, elim conjE)
  assume b: "ds_height div 2 ^ j div 2 \<le> r" "r < ds_height div 2 ^ j"
    "0 \<le> c" "c < ds_width div 2 ^ j"
  have "0 \<le> r" using lower_half_nonneg [OF b(1) b(2)] .
  with b have "inside (ds_height div 2 ^ j) (ds_width div 2 ^ j) r c"
    by (simp add: inside_def)
  then show "depth_mask dilate_struct ds_height ds_width j depth_gt r c"
    using b(1) by (simp add: depth_mask_def Let_def binary_closing_extensive)
qed

theorem depth_mask_bottom_half_witness:
  "depth_mask (\<lambda>j. [(- 1, 0), (0, - 1), (0, 0), (0, 1), (1, 0)]) 32 64 3 (\<lambda>r c. 0) 2 5
   \<and> depth_mask (\<lambda>j. [(- 1, 0), (0, - 1), (0, 0), (0, 1), (1, 0)]) 32 64 3 (\<lambda>r c. 0) 3 0"
  using depth_mask_bottom_half [of 32 3 2 5 64 "\<lambda>j. [(- 1, 0), (0, - 1), (0, 0), (0, 1), (1, 0)]" "\<lambda>r c. 0"]
    depth_mask_bottom_half [of 32 3 3 0 64 "\<lambda>j. [(- 1, 0), (0, - 1), (0, 0), (0, 1), (1, 0)]" "\<lambda>r c. 0"]
  by simp

lemma list4_nth:
  "length xs = 4 \<Longrightarrow> xs = [xs ! 0, xs ! 1, xs ! 2, xs ! 3]"
  by (cases xs; cases "tl xs"; cases "tl (tl xs)"; cases "tl (tl (tl xs))") auto

theorem intrinsics_per_scale_witness:
  "\<exists>inputs'.
     get_depth_related_K
       (\<lambda>M. [[1 / 16, 0, - 1, 0], [0, 1 / 32, - (1 / 4), 0], [0, 0, 1, 0], [0, 0, 0, 1]])
       64 32 4 [[1 / 2, 0, 1 / 2, 0], [0, 2, 1 / 2, 0], [0, 0, 1, 0], [0, 0, 0, 1]] Map.empty
       = Inr inputs'
     \<and> inputs' (''K'', 1) = Some [[16, 0, 16, 0], [0, 32, 8, 0], [0, 0, 1, 0], [0, 0, 0, 1]]
     \<and> inputs' (''inv_K'', 1)
         = Some [[1 / 16, 0, - 1, 0], [0, 1 / 32, - (1 / 4), 0], [0, 0, 1, 0], [0, 0, 0, 1]]
     \<and> moore_penrose [[16, 0, 16, 0], [0, 32, 8, 0], [0, 0, 1, 0], [0, 0, 0, 1]]
         [[1 / 16, 0, - 1, 0], [0, 1 / 32, - (1 / 4), 0], [0, 0, 1, 0], [0, 0, 0, 1]]"
proof -
  let ?pinv = "\<lambda>M::matrix. [[1 / 16, 0, - 1, 0], [0, 1 / 32, - (1 / 4), 0], [0, 0, 1, 0], [0, 0, 0, 1::real]]"
  let ?base = "[[1 / 2, 0, 1 / 2, 0], [0, 2, 1 / 2, 0], [0, 0, 1, 0], [0, 0, 0, 1::real]]"
  let ?Ks = "[[16, 0, 16, 0], [0, 32, 8, 0], [0, 0, 1, 0], [0, 0, 0, 1::real]]"
  have mp: "moore_penrose ?Ks (?pinv ?Ks)"
    by (simp add: moore_penrose_def mat_mul_def transpose.simps)
  from intrinsics_per_scale [of 1 4 ?base ?pinv 64 32 Map.empty]
  obtain inputs' K inv_K where
    r: "get_depth_related_K ?pinv 64 32 4 ?base Map.empty = Inr inputs'"
    and k: "inputs' (''K'', 1) = Some K" "inputs' (''inv_K'', 1) = Some inv_K"
    and len: "length K = 4"
    and r0: "K ! 0 = [16, 0, 16, 0]" and r1: "K ! 1 = [0, 32, 8, 0]"
    and rest: "\<forall>r. 2 \<le> r \<and> r < 4 \<longrightarrow> K ! r = ?base ! r"
    and inv: "inv_K = ?pinv K"
    and imp: "moore_penrose K (?pinv K) \<longrightarrow> moore_penrose K inv_K"
    by auto
  from rest have r2: "K ! 2 = [0, 0, 1, 0]" and r3: "K ! 3 = [0, 0, 0, 1]"
    by (simp_all add: numeral_3_eq_3)
  have K: "K = ?Ks"
    using list4_nth [OF len] r0 r1 r2 r3 by simp
  from imp mp have "moore_penrose ?Ks inv_K" by (simp add: K)
  with r k inv K show ?thesis by simp
qed

section \<open>Properties of the dense inner product\<close>

lemma slice_bounds_window:
  "\<bar>i\<bar> \<le> n \<Longrightarrow> slice_bounds n (max 0 (- i)) (n + min 0 (- i)) = (max 0 (- i), n + min 0 (- i))"
  by (auto simp: slice_bounds_def Let_def max_def min_def)

lemma assign_window_shifted:
  assumes "\<bar>i\<bar> \<le> hgt" and "\<bar>j\<bar> \<le> wid"
  shows "assign_window (max 0 (- i), hgt + min 0 (- i)) (max 0 (- j), wid + min 0 (- j))
           (max 0 i, hgt + min 0 i) (max 0 j, wid + min 0 j) dest src
         = Inr (shifted hgt wid i j src dest)"
proof -
  have eq: "(\<lambda>b h w.
          if max 0 (- i) \<le> h \<and> h < hgt + min 0 (- i) \<and> max 0 (- j) \<le> w \<and> w < wid + min 0 (- j)
          then src b (max 0 i + (h - max 0 (- i))) (max 0 j + (w - max 0 (- j)))
          else dest b h w) = shifted hgt wid i j src dest"
  proof (intro ext)
    fix b h w
    have a: "max 0 i + (h - max 0 (- i)) = h + i" and b: "max 0 j + (w - max 0 (- j)) = w + j"
      by (simp_all add: max_def)
    have c: "(max 0 (- i) \<le> h \<and> h < hgt + min 0 (- i) \<and> max 0 (- j) \<le> w \<and> w < wid + min 0 (- j))
        \<longleftrightarrow> (inside hgt wid h w \<and> inside hgt wid (h + i) (w + j))"
      by (auto simp: inside_def max_def min_def)
    show "(if max 0 (- i) \<le> h \<and> h < hgt + min 0 (- i) \<and> max 0 (- j) \<le> w \<and> w < wid + min 0 (- j)
          then src b (max 0 i + (h - max 0 (- i))) (max 0 j + (w - max 0 (- j)))
          else dest b h w) = shifted hgt wid i j src dest b h w"
      unfolding a b c shifted_def by simp
  qed
  have len: "hgt + min 0 i - max 0 i = hgt + min 0 (- i) - max 0 (- i)"
    "wid + min 0 j - max 0 j = wid + min 0 (- j) - max 0 (- j)"
    by (simp_all add: max_def min_def)
  have "assign_window (max 0 (- i), hgt + min 0 (- i)) (max 0 (- j), wid + min 0 (- j))
           (max 0 i, hgt + min 0 i) (max 0 j, wid + min 0 j) dest src
      = Inr (\<lambda>b h w.
          if max 0 (- i) \<le> h \<and> h < hgt + min 0 (- i) \<and> max 0 (- j) \<le> w \<and> w < wid + min 0 (- j)
          then src b (max 0 i + (h - max 0 (- i))) (max 0 j + (w - max 0 (- j)))
          else dest b h w)"
    unfolding assign_window_def Let_def fst_conv snd_conv len
    by (simp only: simp_thms if_True)
  then show ?thesis by (simp only: eq)
qed

lemma fill_offset_shifted:
  assumes "\<bar>i\<bar> \<le> hgt" and "\<bar>j\<bar> \<le> wid"
  shows "fill_offset hgt wid xyz1 mask1 hsv1 (i, j) st =
     Inr (st\<lparr>xyz_pair_off := (xyz_pair_off st)
                (off_idx (i, j) := shifted hgt wid i j xyz1 (xyz_pair_off st (off_idx (i, j)))),
             mask_pair_off := (mask_pair_off st)
                (off_idx (i, j) := shifted hgt wid i j mask1 (mask_pair_off st (off_idx (i, j)))),
             hsv_pair_off :=
               (case hsv1 of None \<Rightarrow> hsv_pair_off st
                | Some hsv \<Rightarrow> (hsv_pair_off st)
                    (off_idx (i, j) := shifted hgt wid i j hsv (hsv_pair_off st (off_idx (i, j)))))\<rparr>)"
proof -
  have s1: "slice_bounds hgt (max 0 (- i)) (hgt + min 0 (- i)) = (max 0 (- i), hgt + min 0 (- i))"
    and s2: "slice_bounds wid (max 0 (- j)) (wid + min 0 (- j)) = (max 0 (- j), wid + min 0 (- j))"
    using assms by (simp_all add: slice_bounds_window)
  have s3: "slice_bounds hgt (- min 0 (- i)) (hgt + - max 0 (- i)) = (max 0 i, hgt + min 0 i)"
    using assms(1) by (auto simp: slice_bounds_def Let_def max_def min_def)
  have s4: "slice_bounds wid (- min 0 (- j)) (wid + - max 0 (- j)) = (max 0 j, wid + min 0 j)"
    using assms(2) by (auto simp: slice_bounds_def Let_def max_def min_def)
  show ?thesis
    unfolding fill_offset_def Let_def prod.case s1 s2 s3 s4
      assign_window_shifted [OF assms] off_idx_def
    by (cases hsv1) simp_all
qed

lemma filled_slot_Nil: "filled_slot hgt wid src [] old = old"
  by (intro ext) (simp add: filled_slot_def slot_table_def)

lemma filled_slot_Cons:
  assumes "off_idx ij \<notin> off_idx ` set rest"
  shows "filled_slot hgt wid src rest
           (old(off_idx ij := shifted hgt wid (fst ij) (snd ij) src (old (off_idx ij))))
         = filled_slot hgt wid src (ij # rest) old"
proof (intro ext)
  fix k b h w
  have none: "map_of (slot_table rest) (off_idx ij) = None"
    using assms by (simp add: map_of_eq_None_iff slot_table_def image_image)
  show "filled_slot hgt wid src rest
           (old(off_idx ij := shifted hgt wid (fst ij) (snd ij) src (old (off_idx ij)))) k b h w
         = filled_slot hgt wid src (ij # rest) old k b h w"
  proof (cases "k = off_idx ij")
    case True
    then show ?thesis using none by (simp add: filled_slot_def slot_table_def)
  next
    case False
    then show ?thesis by (simp add: filled_slot_def slot_table_def split: option.splits)
  qed
qed

lemma fill_offsets_filled:
  assumes "\<forall>ij \<in> set offs. \<bar>fst ij\<bar> \<le> hgt \<and> \<bar>snd ij\<bar> \<le> wid"
    and "distinct (map off_idx offs)"
  shows "fill_offsets hgt wid xyz1 mask1 hsv1 offs st = Inr (filled hgt wid xyz1 mask1 hsv1 offs st)"
  using assms
proof (induction offs arbitrary: st)
  case Nil
  show ?case
    by (cases hsv1) (simp_all add: filled_def filled_slot_Nil)
next
  case (Cons ij rest)
  obtain i j where ij: "ij = (i, j)" by (cases ij)
  from Cons.prems have bnd: "\<bar>i\<bar> \<le> hgt" "\<bar>j\<bar> \<le> wid"
    and rest: "\<forall>ij \<in> set rest. \<bar>fst ij\<bar> \<le> hgt \<and> \<bar>snd ij\<bar> \<le> wid"
    and fresh: "off_idx ij \<notin> off_idx ` set rest" and dist: "distinct (map off_idx rest)"
    by (simp_all add: ij)
  let ?st1 = "st\<lparr>xyz_pair_off := (xyz_pair_off st)
                (off_idx (i, j) := shifted hgt wid i j xyz1 (xyz_pair_off st (off_idx (i, j)))),
             mask_pair_off := (mask_pair_off st)
                (off_idx (i, j) := shifted hgt wid i j mask1 (mask_pair_off st (off_idx (i, j)))),
             hsv_pair_off :=
               (case hsv1 of None \<Rightarrow> hsv_pair_off st
                | Some hsv \<Rightarrow> (hsv_pair_off st)
                    (off_idx (i, j) := shifted hgt wid i j hsv (hsv_pair_off st (off_idx (i, j)))))\<rparr>"
  have step: "fill_offset hgt wid xyz1 mask1 hsv1 ij st = Inr ?st1"
    unfolding ij by (rule fill_offset_shifted [OF bnd])
  have "filled hgt wid xyz1 mask1 hsv1 rest ?st1 = filled hgt wid xyz1 mask1 hsv1 (ij # rest) st"
    using filled_slot_Cons [OF fresh, of hgt wid xyz1 "xyz_pair_off st"]
      filled_slot_Cons [OF fresh, of hgt wid mask1 "mask_pair_off st"]
      filled_slot_Cons [OF fresh, of hgt wid _ "hsv_pair_off st"]
    by (cases hsv1) (simp_all add: filled_def ij)
  with Cons.IH [OF rest dist, of ?st1] step show ?case by simp
qed

lemma sum_list_slots:
  fixes g :: "'v \<Rightarrow> real"
  assumes "distinct (map fst M)" and "\<forall>x \<in> set M. fst x < n"
  shows "sum_list (map (\<lambda>k. case map_of M k of None \<Rightarrow> 0 | Some v \<Rightarrow> g v) [0..<n])
         = sum_list (map (\<lambda>x. g (snd x)) M)"
  using assms
proof (induction M)
  case Nil
  show ?case by simp
next
  case (Cons x M)
  obtain k0 v0 where x: "x = (k0, v0)" by (cases x)
  from Cons.prems have fresh: "k0 \<notin> fst ` set M" and d: "distinct (map fst M)"
    and b: "\<forall>x \<in> set M. fst x < n" and k0: "k0 < n"
    by (simp_all add: x)
  let ?f = "\<lambda>k. case map_of M k of None \<Rightarrow> 0 | Some v \<Rightarrow> g v"
  have "map_of M k0 = None" using fresh by (simp add: map_of_eq_None_iff)
  then have f0: "?f k0 = 0" by simp
  have "sum_list (map (\<lambda>k. case map_of (x # M) k of None \<Rightarrow> 0 | Some v \<Rightarrow> g v) [0..<n])
      = (\<Sum>k\<in>{0..<n}. if k = k0 then g v0 else ?f k)"
    by (simp add: x interv_sum_list_conv_sum_set_nat) (intro sum.cong, auto)
  also have "\<dots> = (\<Sum>k\<in>{0..<n}. (if k = k0 then g v0 else 0) + ?f k)"
    using f0 by (intro sum.cong) auto
  also have "\<dots> = g v0 + (\<Sum>k\<in>{0..<n}. ?f k)"
    using k0 by (simp add: sum.distrib)
  also have "(\<Sum>k\<in>{0..<n}. ?f k) = sum_list (map (\<lambda>x. g (snd x)) M)"
    using Cons.IH [OF d b] by (simp add: interv_sum_list_conv_sum_set_nat)
  finally show ?case by (simp add: x)
qed

lemma loop_offsets_product:
  "loop_offsets = List.product [- half_h..half_h - 1] [- half_w..half_w - 1]"
  unfolding loop_offsets_def product_concat_map ..

lemma loop_offsets_set: "set loop_offsets = {- 4..3} \<times> {- 4..3}"
  unfolding loop_offsets_product set_product half_w_def half_h_def
  by (simp only: set_upto) simp

lemma loop_offsets_distinct: "distinct loop_offsets"
  unfolding loop_offsets_product by (intro distinct_product distinct_upto)

lemma small_multiple: "- 8 \<le> 9 * d \<Longrightarrow> 9 * d \<le> 8 \<Longrightarrow> d = (0::int)"
  by presburger

lemma off_idx_eq:
  assumes "- 4 \<le> i" "i \<le> 4" "- 4 \<le> j" "j \<le> 4" "- 4 \<le> i'" "i' \<le> 4" "- 4 \<le> j'" "j' \<le> 4"
    and "nat ((i + 4) * 9 + j + 4) = nat ((i' + 4) * 9 + j' + 4)"
  shows "i = i' \<and> j = j'"
proof -
  have "0 \<le> (i + 4) * 9 + j + 4" "0 \<le> (i' + 4) * 9 + j' + 4"
    using assms by (simp_all add: algebra_simps)
  with assms(9) have "(i + 4) * 9 + j + 4 = (i' + 4) * 9 + j' + 4"
    by simp
  then have e: "9 * i + j = 9 * i' + j'" by simp
  then have "9 * (i - i') = j' - j" by (simp add: algebra_simps)
  moreover have "- 8 \<le> j' - j" "j' - j \<le> 8" using assms(3,4,7,8) by simp_all
  ultimately have "- 8 \<le> 9 * (i - i')" "9 * (i - i') \<le> 8" by simp_all
  then have "i - i' = 0" by (rule small_multiple)
  with e show ?thesis by simp
qed

lemma off_idx_inj: "inj_on off_idx ({- 4..4} \<times> {- 4..4})"
proof (rule inj_onI)
  fix x y assume x: "x \<in> {- 4..4} \<times> {- 4..4}" and y: "y \<in> {- 4..4} \<times> {- 4..4}"
    and e: "off_idx x = off_idx y"
  obtain i j where xi: "x = (i, j)" by (cases x)
  obtain i' j' where yi: "y = (i', j')" by (cases y)
  from e have e': "nat ((i + 4) * 9 + j + 4) = nat ((i' + 4) * 9 + j' + 4)"
    by (simp add: xi yi off_idx_def half_w_def half_h_def)
  from x y have "- 4 \<le> i" "i \<le> 4" "- 4 \<le> j" "j \<le> 4" "- 4 \<le> i'" "i' \<le> 4" "- 4 \<le> j'" "j' \<le> 4"
    by (simp_all add: xi yi)
  from off_idx_eq [OF this e'] show "x = y" by (simp add: xi yi)
qed

lemma loop_offsets_slots: "distinct (map off_idx loop_offsets)"
proof -
  have "set loop_offsets \<subseteq> {- 4..4} \<times> {- 4..4}"
    unfolding loop_offsets_set by (intro Sigma_mono) simp_all
  then have "inj_on off_idx (set loop_offsets)"
    by (rule inj_on_subset [OF off_idx_inj])
  then show ?thesis by (simp add: distinct_map loop_offsets_distinct)
qed

lemma off_idx_below:
  assumes "- 4 \<le> i" "i \<le> 3" "- 4 \<le> j" "j \<le> 3"
  shows "off_idx (i, j) < num_off"
proof -
  have "(i + 4) * 9 + j + 4 < 81" using assms by (simp add: algebra_simps)
  then show ?thesis
    by (simp add: off_idx_def num_off_def half_w_def half_h_def)
qed

lemma loop_offsets_below: "\<forall>ij \<in> set loop_offsets. off_idx ij < num_off"
proof
  fix ij assume "ij \<in> set loop_offsets"
  then obtain i j where "ij = (i, j)" "- 4 \<le> i" "i \<le> 3" "- 4 \<le> j" "j \<le> 3"
    unfolding loop_offsets_set by auto
  then show "off_idx ij < num_off" using off_idx_below by simp
qed

lemma loop_offsets_bounds:
  "4 \<le> hgt \<Longrightarrow> 4 \<le> wid \<Longrightarrow> \<forall>ij \<in> set loop_offsets. \<bar>fst ij\<bar> \<le> hgt \<and> \<bar>snd ij\<bar> \<le> wid"
  unfolding loop_offsets_set by auto

lemma filled_term:
  fixes F :: "real list \<Rightarrow> real list \<Rightarrow> real"
  assumes "inside hgt wid h w"
  shows "(if mask_pair_off (filled hgt wid xyz1 mask1 hsv1 offs zero_offsets) k a h w
          then F (xyz_pair_off (filled hgt wid xyz1 mask1 hsv1 offs zero_offsets) k b h w)
                 (hsv_pair_off (filled hgt wid xyz1 mask1 hsv1 offs zero_offsets) k b h w)
          else 0)
     = (case map_of (slot_table offs) k of
          None \<Rightarrow> 0
        | Some ij \<Rightarrow>
            if inside hgt wid (h + fst ij) (w + snd ij) \<and> mask1 a (h + fst ij) (w + snd ij)
            then F (xyz1 b (h + fst ij) (w + snd ij))
                   (case hsv1 of None \<Rightarrow> [0, 0, 0] | Some hsv \<Rightarrow> hsv b (h + fst ij) (w + snd ij))
            else 0)"
  using assms(1)
  by (cases hsv1)
    (simp_all add: filled_def filled_slot_def shifted_def zero_offsets_def split: option.splits)

lemma halfsum_window:
  fixes F :: "real list \<Rightarrow> real list \<Rightarrow> real"
  assumes "inside hgt wid h w" and "distinct (map off_idx offs)"
    and "\<forall>ij \<in> set offs. off_idx ij < n"
  shows "sum_list (map (\<lambda>k.
            if mask_pair_off (filled hgt wid xyz1 mask1 hsv1 offs zero_offsets) k a h w
            then F (xyz_pair_off (filled hgt wid xyz1 mask1 hsv1 offs zero_offsets) k b h w)
                   (hsv_pair_off (filled hgt wid xyz1 mask1 hsv1 offs zero_offsets) k b h w)
            else 0) [0..<n])
     = sum_list (map (\<lambda>ij.
          if inside hgt wid (h + fst ij) (w + snd ij) \<and> mask1 a (h + fst ij) (w + snd ij)
          then F (xyz1 b (h + fst ij) (w + snd ij))
                 (case hsv1 of None \<Rightarrow> [0, 0, 0] | Some hsv \<Rightarrow> hsv b (h + fst ij) (w + snd ij))
          else 0) offs)"
proof -
  let ?G = "\<lambda>ij. if inside hgt wid (h + fst ij) (w + snd ij) \<and> mask1 a (h + fst ij) (w + snd ij)
          then F (xyz1 b (h + fst ij) (w + snd ij))
                 (case hsv1 of None \<Rightarrow> [0, 0, 0] | Some hsv \<Rightarrow> hsv b (h + fst ij) (w + snd ij))
          else 0"
  have d: "distinct (map fst (slot_table offs))"
    using assms(2) by (simp add: slot_table_def comp_def)
  have bnd: "\<forall>x \<in> set (slot_table offs). fst x < n"
    using assms(3) by (auto simp: slot_table_def)
  have "sum_list (map (\<lambda>k.
            if mask_pair_off (filled hgt wid xyz1 mask1 hsv1 offs zero_offsets) k a h w
            then F (xyz_pair_off (filled hgt wid xyz1 mask1 hsv1 offs zero_offsets) k b h w)
                   (hsv_pair_off (filled hgt wid xyz1 mask1 hsv1 offs zero_offsets) k b h w)
            else 0) [0..<n])
      = sum_list (map (\<lambda>k. case map_of (slot_table offs) k of None \<Rightarrow> 0 | Some ij \<Rightarrow> ?G ij) [0..<n])"
    unfolding filled_term [OF assms(1)] ..
  also have "\<dots> = sum_list (map (\<lambda>x. ?G (snd x)) (slot_table offs))"
    by (rule sum_list_slots [OF d bnd])
  also have "\<dots> = sum_list (map ?G offs)"
    by (simp only: slot_table_def map_map o_def snd_conv)
  finally show ?thesis .
qed

lemma inside_upto:
  "h \<in> set [0..hgt - 1] \<Longrightarrow> w \<in> set [0..wid - 1] \<Longrightarrow> inside hgt wid h w"
  by (simp add: inside_def)

lemma calc_inp_from_dense_window:
  assumes "4 \<le> hgt" and "4 \<le> wid"
  shows "calc_inp_from_dense ell B hgt wid xyz_pair mask_pair hsv_pair
     = Inr (cross_window_inp loop_offsets ell B hgt wid xyz_pair mask_pair hsv_pair)"
proof (cases hsv_pair)
  case None
  let ?st = "filled hgt wid (snd xyz_pair) (snd mask_pair) None loop_offsets zero_offsets"
  have fo: "fill_offsets hgt wid (snd xyz_pair) (snd mask_pair) None loop_offsets zero_offsets
      = Inr ?st"
    by (rule fill_offsets_filled [OF loop_offsets_bounds [OF assms] loop_offsets_slots])
  have pix: "sum_list (map (\<lambda>k. if mask_pair_off ?st k a h w
                 then kern ell (fst xyz_pair b h w) (xyz_pair_off ?st k b h w) else 0) [0..<num_off])
      = sum_list (map (\<lambda>(i, j).
              if inside hgt wid (h + i) (w + j) \<and> snd mask_pair a (h + i) (w + j)
              then pair_kernel ell xyz_pair None b h w (h + i) (w + j) else 0) loop_offsets)"
    if "h \<in> set [0..hgt - 1]" and "w \<in> set [0..wid - 1]" for a b h w
    using halfsum_window [where F = "\<lambda>x c. kern ell (fst xyz_pair b h w) x"
          and ?xyz1.0 = "snd xyz_pair" and ?mask1.0 = "snd mask_pair" and ?hsv1.0 = None
          and a = a and b = b,
        OF inside_upto [OF that] loop_offsets_slots loop_offsets_below]
    by (simp add: pair_kernel_def case_prod_unfold cong: if_cong)
  show ?thesis
    unfolding calc_inp_from_dense_def cross_window_inp_def Let_def None option.map option.case
      fo sum.case
    by (intro arg_cong [where f = Inr] arg_cong [where f = sum_list] map_cong refl)
      (simp only: pix)
next
  case (Some hsv)
  let ?st = "filled hgt wid (snd xyz_pair) (snd mask_pair) (Some (snd hsv)) loop_offsets zero_offsets"
  have fo: "fill_offsets hgt wid (snd xyz_pair) (snd mask_pair) (Some (snd hsv)) loop_offsets zero_offsets
      = Inr ?st"
    by (rule fill_offsets_filled [OF loop_offsets_bounds [OF assms] loop_offsets_slots])
  have pix: "sum_list (map (\<lambda>k. if mask_pair_off ?st k a h w
                 then kern ell (fst xyz_pair b h w) (xyz_pair_off ?st k b h w)
                      * kern 0.4 (fst hsv b h w) (hsv_pair_off ?st k b h w) else 0) [0..<num_off])
      = sum_list (map (\<lambda>(i, j).
              if inside hgt wid (h + i) (w + j) \<and> snd mask_pair a (h + i) (w + j)
              then pair_kernel ell xyz_pair (Some hsv) b h w (h + i) (w + j) else 0) loop_offsets)"
    if "h \<in> set [0..hgt - 1]" and "w \<in> set [0..wid - 1]" for a b h w
    using halfsum_window [where F = "\<lambda>x c. kern ell (fst xyz_pair b h w) x * kern 0.4 (fst hsv b h w) c"
          and ?xyz1.0 = "snd xyz_pair" and ?mask1.0 = "snd mask_pair"
          and ?hsv1.0 = "Some (snd hsv)" and a = a and b = b,
        OF inside_upto [OF that] loop_offsets_slots loop_offsets_below]
    by (simp add: pair_kernel_def case_prod_unfold cong: if_cong)
  show ?thesis
    unfolding calc_inp_from_dense_def cross_window_inp_def Let_def Some option.map option.case
      fo sum.case
    by (intro arg_cong [where f = Inr] arg_cong [where f = sum_list] map_cong refl)
      (simp only: pix)
qed

lemma cross_window_inp_single:
  "cross_window_inp offs ell 1 hgt wid xyz_pair mask_pair hsv_pair
     = window_inp offs ell 1 hgt wid xyz_pair mask_pair hsv_pair"
  by (simp add: cross_window_inp_def window_inp_def)

lemma kern_same: "kern ell a a = 1"
  by (simp add: kern_def zip_same_conv_map comp_def)

lemma upto_8: "[0..8 - 1::int] = [0, 1, 2, 3, 4, 5, 6, 7]"
  by (simp add: upto_rec1)

lemma upto_4: "[0..4 - 1::int] = [0, 1, 2, 3]"
  by (simp add: upto_rec1)

lemma loop_rows: "[- half_h..half_h - 1] = [- 4, - 3, - 2, - 1, 0, 1, 2, 3]"
  "[- half_w..half_w - 1] = [- 4, - 3, - 2, - 1, 0, 1, 2, 3]"
  by (simp_all add: half_h_def half_w_def upto_rec1)

lemma full_rows: "[- half_h..half_h] = [- 4, - 3, - 2, - 1, 0, 1, 2, 3, 4]"
  "[- half_w..half_w] = [- 4, - 3, - 2, - 1, 0, 1, 2, 3, 4]"
  by (simp_all add: half_h_def half_w_def upto_rec1)

lemma upto_2: "[0..<2::nat] = [0, 1]"
  by (simp add: upt_rec)

lemma example_code_window:
  "window_inp loop_offsets (1 / 10) 1 8 4 (origin_pts, origin_pts) (mask_top, mask_below)
     (Some (origin_pts, origin_pts)) = 0"
  unfolding window_inp_def loop_offsets_def loop_rows upto_8 upto_4
  by (simp add: mask_top_def mask_below_def inside_def)

lemma example_code_window_rev:
  "window_inp loop_offsets (1 / 10) 1 8 4 (origin_pts, origin_pts) (mask_below, mask_top)
     (Some (origin_pts, origin_pts)) = 1"
  unfolding window_inp_def loop_offsets_def loop_rows upto_8 upto_4
  by (simp add: mask_top_def mask_below_def inside_def pair_kernel_def origin_pts_def kern_same)

lemma example_full_window:
  "window_inp full_window (1 / 10) 1 8 4 (origin_pts, origin_pts) (mask_top, mask_below)
     (Some (origin_pts, origin_pts)) = 1"
  unfolding window_inp_def full_window_def full_rows upto_8 upto_4
  by (simp add: mask_top_def mask_below_def inside_def pair_kernel_def origin_pts_def kern_same)

lemma example_batch_code:
  "cross_window_inp loop_offsets (1 / 10) 2 4 4 (origin_pts, origin_pts) (mask_first, mask_first)
     (Some (origin_pts, origin_pts)) = 2"
  unfolding cross_window_inp_def loop_offsets_def loop_rows upto_4 upto_2
  by (simp add: mask_first_def inside_def pair_kernel_def origin_pts_def kern_same)

lemma example_batch_window:
  "window_inp loop_offsets (1 / 10) 2 4 4 (origin_pts, origin_pts) (mask_first, mask_first)
     (Some (origin_pts, origin_pts)) = 1"
  unfolding window_inp_def loop_offsets_def loop_rows upto_4 upto_2
  by (simp add: mask_first_def inside_def pair_kernel_def origin_pts_def kern_same)

text \<open>
  Claim C8. The loops run over \<open>range(-half_h, half_h)\<close> and
  \<open>range(-half_w, half_w)\<close>, that is over the offsets \<open>-4, ..., 3\<close>: of the 81 slots
  64 are filled and the slots of the offsets \<open>+4\<close> stay clear (lemma
  \<open>calc_inp_from_dense_window\<close>). In an image of 8 rows and 4 columns with equal points
  everywhere, one valid pixel of the first set at row 0 and one valid pixel of the
  second set at row 4 of the same column, the code returns the inner product 0, where
  the window of \<open>(2 half_h + 1) (2 half_w + 1)\<close> offsets gives 1; with the two masks
  exchanged (offset \<open>-4\<close>) the code returns 1. In a batch of two samples of which only
  the first has a valid pixel, the code returns 2 where the sum over the pixels of each
  sample gives 1: the masks of the first sample are also applied to the kernel values
  of the second.
\<close>

theorem dense_window_misses_offset_4:
  "calc_inp_from_dense (1 / 10) 1 8 4 (origin_pts, origin_pts) (mask_top, mask_below)
     (Some (origin_pts, origin_pts)) = Inr 0
   \<and> calc_inp_from_dense (1 / 10) 1 8 4 (origin_pts, origin_pts) (mask_below, mask_top)
     (Some (origin_pts, origin_pts)) = Inr 1
   \<and> window_inp full_window (1 / 10) 1 8 4 (origin_pts, origin_pts) (mask_top, mask_below)
     (Some (origin_pts, origin_pts)) = 1
   \<and> calc_inp_from_dense (1 / 10) 2 4 4 (origin_pts, origin_pts) (mask_first, mask_first)
     (Some (origin_pts, origin_pts)) = Inr 2
   \<and> window_inp loop_offsets (1 / 10) 2 4 4 (origin_pts, origin_pts) (mask_first, mask_first)
     (Some (origin_pts, origin_pts)) = 1"
proof -
  have size: "(4::int) \<le> 8" "(4::int) \<le> 4" by simp_all
  have size': "(4::int) \<le> 4" "(4::int) \<le> 4" by simp_all
  show ?thesis
    unfolding calc_inp_from_dense_window [OF size] calc_inp_from_dense_window [OF size']
      cross_window_inp_single example_code_window example_code_window_rev example_full_window
      example_batch_code example_batch_window
    by simp
qed

end
